theory Spec2Isabelle
  imports Main
begin

section \<open>Strings and numbers of the JavaScript runtime\<close>

text \<open>
  The application is browser JavaScript. The parts of the runtime its date and storage
  code relies on are embedded here after the ECMAScript specification: decimal
  rendering of integers, \<^verbatim>\<open>padStart\<close>, \<^verbatim>\<open>split\<close> on one character, \<^verbatim>\<open>Number\<close> applied to
  a string, and the time-value arithmetic of \<^verbatim>\<open>Date\<close>.
\<close>

text \<open>\<^verbatim>\<open>xs.findIndex(P)\<close>, with \<open>None\<close> for \<open>-1\<close>.\<close>

fun findIndex :: "('a \<Rightarrow> bool) \<Rightarrow> 'a list \<Rightarrow> nat option" where
  "findIndex P [] = None"
| "findIndex P (x # xs) = (if P x then Some 0 else map_option Suc (findIndex P xs))"

definition decimal_digits :: string where
  "decimal_digits = ''0123456789''"

definition digit_char :: "nat \<Rightarrow> char" where
  "digit_char n = decimal_digits ! (n mod 10)"

definition digit_val :: "char \<Rightarrow> nat option" where
  "digit_val c = findIndex (\<lambda>d. d = c) decimal_digits"

text \<open>Decimal digits of a natural number, most significant first (\<^verbatim>\<open>String(n)\<close>).\<close>

fun str_nat :: "nat \<Rightarrow> string" where
  "str_nat n = (if n < 10 then [digit_char n] else str_nat (n div 10) @ [digit_char (n mod 10)])"

declare str_nat.simps [simp del]

text \<open>\<^verbatim>\<open>String(i)\<close> of an integral number, as a template literal renders it.\<close>

definition str_int :: "int \<Rightarrow> string" where
  "str_int i = (if i < 0 then CHR ''-'' # str_nat (nat (- i)) else str_nat (nat i))"

text \<open>\<^verbatim>\<open>s.padStart(n, c)\<close> for a one-character filler.\<close>

definition padStart :: "nat \<Rightarrow> char \<Rightarrow> string \<Rightarrow> string" where
  "padStart n c s = replicate (n - length s) c @ s"

text \<open>\<^verbatim>\<open>s.split(c)\<close> for a one-character separator: never the empty list.\<close>

fun split_chr :: "char \<Rightarrow> string \<Rightarrow> string list" where
  "split_chr c [] = [[]]"
| "split_chr c (x # xs) =
     (if x = c then [] # split_chr c xs
      else (case split_chr c xs of [] \<Rightarrow> [[x]] | w # ws \<Rightarrow> (x # w) # ws))"

text \<open>
  Value of a string of decimal digits, \<open>None\<close> when a character is not a digit.
\<close>

fun digits_val :: "nat \<Rightarrow> string \<Rightarrow> nat option" where
  "digits_val acc [] = Some acc"
| "digits_val acc (c # cs) =
     (case digit_val c of None \<Rightarrow> None | Some d \<Rightarrow> digits_val (10 * acc + d) cs)"

text \<open>
  \<^verbatim>\<open>Number(s)\<close> on the strings a date key splits into: the empty string is \<open>0\<close>, a
  string of decimal digits is its value, and \<open>None\<close> stands for \<^verbatim>\<open>NaN\<close>. Signs,
  exponents, fractions and white space do not occur in the pieces of a date key and
  are read as \<^verbatim>\<open>NaN\<close> here.
\<close>

definition Number :: "string \<Rightarrow> int option" where
  "Number s = map_option int (digits_val 0 s)"

section \<open>Time values and calendar arithmetic of Date\<close>

text \<open>
  A time value is the number of milliseconds since 1970-01-01T00:00:00Z, an integer.
  The functions below are those of the ECMAScript specification (Day, TimeWithinDay,
  DaysInYear, DayFromYear, YearFromTime, InLeapYear, MonthFromTime, DateFromTime,
  WeekDay, MakeTime, MakeDay, MakeDate). The range check TimeClip (years beyond
  \<plusminus>275760) is not modelled. The local time zone is a constant offset \<open>tz\<close>, in minutes
  east of UTC, so \<^verbatim>\<open>getTimezoneOffset()\<close> is \<open>- tz\<close>; zones that change their offset
  (daylight saving) are outside the model.
\<close>

definition msPerDay :: int where "msPerDay = 86400000"
definition msPerHour :: int where "msPerHour = 3600000"
definition msPerMinute :: int where "msPerMinute = 60000"
definition msPerSecond :: int where "msPerSecond = 1000"

definition Day :: "int \<Rightarrow> int" where
  "Day t = t div msPerDay"

definition TimeWithinDay :: "int \<Rightarrow> int" where
  "TimeWithinDay t = t mod msPerDay"

definition leap_year :: "int \<Rightarrow> bool" where
  "leap_year y = (y mod 4 = 0 \<and> (y mod 100 \<noteq> 0 \<or> y mod 400 = 0))"

definition DaysInYear :: "int \<Rightarrow> int" where
  "DaysInYear y = (if leap_year y then 366 else 365)"

definition DayFromYear :: "int \<Rightarrow> int" where
  "DayFromYear y =
     365 * (y - 1970) + (y - 1969) div 4 - (y - 1901) div 100 + (y - 1601) div 400"

text \<open>
  The specification defines the year of a day as the largest \<open>y\<close> with
  \<open>DayFromYear y \<le> d\<close>. It is computed from the mean year length of the 400-year cycle
  (146097 days) and corrected by at most one; \<open>YearFromDay_spec\<close> below shows that this
  is the year the specification means.
\<close>

definition YearFromDay :: "int \<Rightarrow> int" where
  "YearFromDay d =
     (let y = 1970 + (400 * d) div 146097 in
      if DayFromYear (y + 1) \<le> d then y + 1
      else if d < DayFromYear y then y - 1
      else y)"

definition YearFromTime :: "int \<Rightarrow> int" where
  "YearFromTime t = YearFromDay (Day t)"

definition InLeapYear :: "int \<Rightarrow> int" where
  "InLeapYear t = (if DaysInYear (YearFromTime t) = 366 then 1 else 0)"

definition DayWithinYear :: "int \<Rightarrow> int" where
  "DayWithinYear t = Day t - DayFromYear (YearFromTime t)"

text \<open>
  First day, within a year, of month \<open>m\<close> (0 = January .. 11 = December; 12 is the end of
  the year), with \<open>l\<close> = 1 in a leap year: the bounds of the specification's table for
  MonthFromTime.
\<close>

definition month_start :: "int \<Rightarrow> int \<Rightarrow> int" where
  "month_start l m =
     (if m \<le> 0 then 0 else if m = 1 then 31 else if m = 2 then 59 + l
      else if m = 3 then 90 + l else if m = 4 then 120 + l else if m = 5 then 151 + l
      else if m = 6 then 181 + l else if m = 7 then 212 + l else if m = 8 then 243 + l
      else if m = 9 then 273 + l else if m = 10 then 304 + l else if m = 11 then 334 + l
      else 365 + l)"

definition MonthFromTime :: "int \<Rightarrow> int" where
  "MonthFromTime t =
     (let d = DayWithinYear t; l = InLeapYear t in
      if d < 31 then 0 else if d < 59 + l then 1 else if d < 90 + l then 2
      else if d < 120 + l then 3 else if d < 151 + l then 4 else if d < 181 + l then 5
      else if d < 212 + l then 6 else if d < 243 + l then 7 else if d < 273 + l then 8
      else if d < 304 + l then 9 else if d < 334 + l then 10 else 11)"

definition DateFromTime :: "int \<Rightarrow> int" where
  "DateFromTime t = DayWithinYear t - month_start (InLeapYear t) (MonthFromTime t) + 1"

definition WeekDay :: "int \<Rightarrow> int" where
  "WeekDay t = (Day t + 4) mod 7"

definition HourFromTime :: "int \<Rightarrow> int" where
  "HourFromTime t = (t div msPerHour) mod 24"

definition MinFromTime :: "int \<Rightarrow> int" where
  "MinFromTime t = (t div msPerMinute) mod 60"

definition SecFromTime :: "int \<Rightarrow> int" where
  "SecFromTime t = (t div msPerSecond) mod 60"

definition msFromTime :: "int \<Rightarrow> int" where
  "msFromTime t = t mod msPerSecond"

definition MakeTime :: "int \<Rightarrow> int \<Rightarrow> int \<Rightarrow> int \<Rightarrow> int" where
  "MakeTime h m s ms = h * msPerHour + m * msPerMinute + s * msPerSecond + ms"

text \<open>
  MakeDay: the month may lie outside 0..11 and the date outside the month; both carry
  over. The day on which month \<open>mn\<close> of year \<open>ym\<close> begins is given directly
  (\<open>fields_of_MakeDay\<close> below shows it is the day the specification asks for).
\<close>

definition MakeDay :: "int \<Rightarrow> int \<Rightarrow> int \<Rightarrow> int" where
  "MakeDay year month date =
     (let ym = year + month div 12; mn = month mod 12 in
      DayFromYear ym + month_start (if leap_year ym then 1 else 0) mn + date - 1)"

definition MakeDate :: "int \<Rightarrow> int \<Rightarrow> int" where
  "MakeDate day time = day * msPerDay + time"

definition LocalTime :: "int \<Rightarrow> int \<Rightarrow> int" where
  "LocalTime tz t = t + tz * msPerMinute"

definition UTC :: "int \<Rightarrow> int \<Rightarrow> int" where
  "UTC tz t = t - tz * msPerMinute"

section \<open>Date objects\<close>

text \<open>
  A valid \<^verbatim>\<open>Date\<close> object is its time value; an invalid one (\<^verbatim>\<open>NaN\<close>) is \<open>None\<close> where it
  can arise. Every method takes the zone offset \<open>tz\<close> first.
\<close>

definition getTimezoneOffset :: "int \<Rightarrow> int \<Rightarrow> int" where
  "getTimezoneOffset tz t = (t - LocalTime tz t) div msPerMinute"

definition getFullYear :: "int \<Rightarrow> int \<Rightarrow> int" where
  "getFullYear tz t = YearFromTime (LocalTime tz t)"

definition getMonth :: "int \<Rightarrow> int \<Rightarrow> int" where
  "getMonth tz t = MonthFromTime (LocalTime tz t)"

definition getDate :: "int \<Rightarrow> int \<Rightarrow> int" where
  "getDate tz t = DateFromTime (LocalTime tz t)"

definition getDay :: "int \<Rightarrow> int \<Rightarrow> int" where
  "getDay tz t = WeekDay (LocalTime tz t)"

definition setDate :: "int \<Rightarrow> int \<Rightarrow> int \<Rightarrow> int" where
  "setDate tz t dt =
     (let lt = LocalTime tz t in
      UTC tz (MakeDate (MakeDay (YearFromTime lt) (MonthFromTime lt) dt) (TimeWithinDay lt)))"

definition setHours :: "int \<Rightarrow> int \<Rightarrow> int \<Rightarrow> int \<Rightarrow> int \<Rightarrow> int \<Rightarrow> int" where
  "setHours tz t h m s ms =
     (let lt = LocalTime tz t in UTC tz (MakeDate (Day lt) (MakeTime h m s ms)))"

text \<open>\<^verbatim>\<open>new Date(year, month, day)\<close>: local midnight; a year in 0..99 means 1900 + year.\<close>

definition new_Date :: "int \<Rightarrow> int \<Rightarrow> int \<Rightarrow> int \<Rightarrow> int" where
  "new_Date tz year month day =
     (let yr = (if 0 \<le> year \<and> year \<le> 99 then 1900 + year else year) in
      UTC tz (MakeDate (MakeDay yr month day) (MakeTime 0 0 0 0)))"

definition pad2 :: "int \<Rightarrow> string" where
  "pad2 i = padStart 2 CHR ''0'' (str_int i)"

text \<open>
  \<^verbatim>\<open>toISOString()\<close>: the UTC fields of the time value; four digits for the years
  0..9999, a sign and six digits otherwise.
\<close>

definition iso_year :: "int \<Rightarrow> string" where
  "iso_year y =
     (if 0 \<le> y \<and> y \<le> 9999 then padStart 4 CHR ''0'' (str_nat (nat y))
      else (if y < 0 then CHR ''-'' else CHR ''+'') # padStart 6 CHR ''0'' (str_nat (nat \<bar>y\<bar>)))"

definition toISOString :: "int \<Rightarrow> string" where
  "toISOString t =
     iso_year (YearFromTime t) @ ''-'' @ pad2 (MonthFromTime t + 1) @ ''-'' @
     pad2 (DateFromTime t) @ ''T'' @ pad2 (HourFromTime t) @ '':'' @ pad2 (MinFromTime t) @
     '':'' @ pad2 (SecFromTime t) @ ''.'' @ padStart 3 CHR ''0'' (str_int (msFromTime t)) @ ''Z''"

text \<open>The date part of \<open>toISOString\<close>, up to the letter T.\<close>

definition iso_date :: "int \<Rightarrow> string" where
  "iso_date t =
     iso_year (YearFromTime t) @ ''-'' @ pad2 (MonthFromTime t + 1) @ ''-'' @ pad2 (DateFromTime t)"

text \<open>\<^verbatim>\<open>arr[0]\<close>; \<^verbatim>\<open>split\<close> never returns the empty array.\<close>

definition first_piece :: "string list \<Rightarrow> string" where
  "first_piece ps = (case ps of [] \<Rightarrow> ''undefined'' | p # _ \<Rightarrow> p)"

text \<open>
  \<^verbatim>\<open>new Date(s)\<close> for a string \<^verbatim>\<open>YYYY-MM-DDTHH:mm:ss\<close>, which the specification reads
  as local time; hour 24 is allowed for the end of the day. Any other string is taken
  as an invalid date. The day of month is checked against 1..31 only.
\<close>

definition Date_parse :: "int \<Rightarrow> string \<Rightarrow> int option" where
  "Date_parse tz s =
     (if length s = 19 \<and> s ! 4 = CHR ''-'' \<and> s ! 7 = CHR ''-'' \<and> s ! 10 = CHR ''T'' \<and>
         s ! 13 = CHR '':'' \<and> s ! 16 = CHR '':''
      then
        (case (digits_val 0 (take 4 s), digits_val 0 (take 2 (drop 5 s)),
               digits_val 0 (take 2 (drop 8 s)), digits_val 0 (take 2 (drop 11 s)),
               digits_val 0 (take 2 (drop 14 s)), digits_val 0 (take 2 (drop 17 s))) of
           (Some y, Some mo, Some d, Some h, Some mi, Some sec) \<Rightarrow>
             if 1 \<le> mo \<and> mo \<le> 12 \<and> 1 \<le> d \<and> d \<le> 31 \<and> mi < 60 \<and> sec < 60 \<and>
                (h < 24 \<or> (h = 24 \<and> mi = 0 \<and> sec = 0))
             then Some (UTC tz (MakeDate (MakeDay (int y) (int mo - 1) (int d))
                                  (MakeTime (int h) (int mi) (int sec) 0)))
             else None
         | _ \<Rightarrow> None)
      else None)"

text \<open>\<^verbatim>\<open>new Date(year, month, day, hours, minutes, seconds, ms)\<close>: a local date and time.\<close>

definition new_Date_time :: "int \<Rightarrow> int \<Rightarrow> int \<Rightarrow> int \<Rightarrow> int \<Rightarrow> int \<Rightarrow> int \<Rightarrow> int \<Rightarrow> int" where
  "new_Date_time tz year month day hours minutes seconds ms =
     (let yr = (if 0 \<le> year \<and> year \<le> 99 then 1900 + year else year) in
      UTC tz (MakeDate (MakeDay yr month day) (MakeTime hours minutes seconds ms)))"

text \<open>Length of month \<open>m\<close> (0 = January) of year \<open>y\<close>.\<close>

definition DaysInMonth :: "int \<Rightarrow> int \<Rightarrow> int" where
  "DaysInMonth y m =
     (let l = (if leap_year y then 1 else 0) in month_start l (m + 1) - month_start l m)"

text \<open>
  The calendar key of the specification: year, month counted from 1, and day, the last
  two padded with zeros to two digits.
\<close>

definition CalendarKey :: "int \<Rightarrow> int \<Rightarrow> int \<Rightarrow> string" where
  "CalendarKey year month day =
     str_int year @ ''-'' @ padStart 2 CHR ''0'' (str_int month) @ ''-'' @
     padStart 2 CHR ''0'' (str_int day)"

section \<open>Number division and toFixed\<close>

text \<open>
  Numbers are IEEE doubles. The quotient of two positive integers below \<open>2^53\<close> is the
  double nearest to the exact quotient, ties to the even significand. A double is
  given as a pair \<open>(m, e)\<close> that stands for \<open>m * 2^e\<close>, with \<open>2^52 \<le> m \<le> 2^53\<close>
  unless it is zero.
\<close>

function bit_length :: "int \<Rightarrow> nat" where
  "bit_length n = (if n \<le> 0 then 0 else Suc (bit_length (n div 2)))"
  by pat_completeness auto
termination
  by (relation "measure nat") auto

declare bit_length.simps [simp del]

definition scale_up :: "int \<Rightarrow> int \<Rightarrow> int" where
  "scale_up p e = p * 2 ^ nat e"

definition round_half_even :: "int \<Rightarrow> int \<Rightarrow> int" where
  "round_half_even p q =
     (let m = p div q; r = p mod q in
      if q < 2 * r \<or> (2 * r = q \<and> odd m) then m + 1 else m)"

definition fl_div :: "int \<Rightarrow> int \<Rightarrow> int \<times> int" where
  "fl_div p q =
     (if p = 0 then (0, 0)
      else
        let e0 = int (bit_length p) - int (bit_length q) - 53;
            e = (if scale_up p (- e0) < 2 ^ 53 * scale_up q e0 then e0 else e0 + 1)
        in (round_half_even (scale_up p (- e)) (scale_up q e), e))"

text \<open>
  \<^verbatim>\<open>x.toFixed(1)\<close> for \<open>0 \<le> x < 10^21\<close>: the integer \<open>n\<close> with \<open>n / 10\<close> nearest to \<open>x\<close>, the
  larger one of two; then its digits, at least two of them, with a point before the
  last.
\<close>

definition toFixed1_n :: "int \<times> int \<Rightarrow> int" where
  "toFixed1_n x =
     (case x of (m, e) \<Rightarrow>
        (20 * scale_up m e + scale_up 1 (- e)) div (2 * scale_up 1 (- e)))"

definition fixed1_string :: "int \<Rightarrow> string" where
  "fixed1_string n =
     (let m = padStart 2 CHR ''0'' (str_int n); k = length m in
      take (k - 1) m @ ''.'' @ drop (k - 1) m)"

definition toFixed1 :: "int \<times> int \<Rightarrow> string" where
  "toFixed1 x = fixed1_string (toFixed1_n x)"

section \<open>The sleep tracker (sleep.js)\<close>

subsection \<open>State\<close>

text \<open>
  A sleep log is \<^verbatim>\<open>{date, sleepTime, wakeTime, duration}\<close>; \<^verbatim>\<open>duration\<close> is the string
  \<^verbatim>\<open>toFixed\<close> returned. The module state is \<^verbatim>\<open>sleepLogs\<close> and \<^verbatim>\<open>currentWeek\<close> (\<open>None\<close> is
  \<^verbatim>\<open>null\<close>), together with what \<^verbatim>\<open>localStorage\<close> holds under the keys of the same names
  (\<open>None\<close>: no item); a stored JSON text is represented by the value it denotes.
\<close>

record sleep_log =
  log_date :: string
  log_sleepTime :: string
  log_wakeTime :: string
  log_duration :: string

record sleep_state =
  sleepLogs :: "sleep_log list"
  currentWeek :: "string option"
  stored_sleepLogs :: "sleep_log list option"
  stored_currentWeek :: "string option"

datatype error = SyntaxError | RangeError | TypeError

subsection \<open>Date keys\<close>

definition getLocalDateKey :: "int \<Rightarrow> int \<Rightarrow> string" where
  "getLocalDateKey tz now =
     (let year = getFullYear tz now;
          month = padStart 2 CHR ''0'' (str_int (getMonth tz now + 1));
          day = padStart 2 CHR ''0'' (str_int (getDate tz now))
      in str_int year @ ''-'' @ month @ ''-'' @ day)"

text \<open>The journal's function of the same name (journal.js), applied to a date.\<close>

definition journal_getLocalDateKey :: "int \<Rightarrow> int \<Rightarrow> string" where
  "journal_getLocalDateKey tz date =
     (let adjustedDate = date - getTimezoneOffset tz date * 60000 in
      first_piece (split_chr CHR ''T'' (toISOString adjustedDate)))"

text \<open>
  \<open>getWeekStartDate\<close>: the key is split at \<^verbatim>\<open>-\<close> and its first three pieces are read as
  numbers; \<open>None\<close> is the invalid date that results when one of them is \<^verbatim>\<open>NaN\<close> or
  missing.
\<close>

definition getWeekStartDate :: "int \<Rightarrow> int \<Rightarrow> int option" where
  "getWeekStartDate tz now =
     (case map Number (split_chr CHR ''-'' (getLocalDateKey tz now)) of
        Some year # Some month # Some day # _ \<Rightarrow>
          (let today = new_Date tz year (month - 1) day;
               dayOfWeek = getDay tz today;
               diff = (if dayOfWeek = 0 then 6 else dayOfWeek - 1);
               weekStart = setDate tz today (getDate tz today - diff);
               weekStart = setHours tz weekStart 0 0 0 0
           in Some weekStart)
      | _ \<Rightarrow> None)"

subsection \<open>Weekly reset\<close>

text \<open>\<^verbatim>\<open>!currentWeek\<close>: \<^verbatim>\<open>null\<close> and the empty string are falsy.\<close>

definition falsy_string :: "string option \<Rightarrow> bool" where
  "falsy_string v = (case v of None \<Rightarrow> True | Some s \<Rightarrow> s = [])"

definition weekStartKey :: "int \<Rightarrow> string" where
  "weekStartKey weekStart = first_piece (split_chr CHR ''T'' (toISOString weekStart))"

text \<open>\<^verbatim>\<open>toISOString\<close> of an invalid date throws a \<^verbatim>\<open>RangeError\<close>.\<close>

definition checkAndResetWeeklyData :: "int \<Rightarrow> int \<Rightarrow> sleep_state \<Rightarrow> error + sleep_state" where
  "checkAndResetWeeklyData tz now s =
     (case getWeekStartDate tz now of
        None \<Rightarrow> Inl RangeError
      | Some weekStart \<Rightarrow>
          (let key = weekStartKey weekStart in
           if falsy_string (currentWeek s) \<or> currentWeek s \<noteq> Some key
           then Inr (s\<lparr>sleepLogs := [], currentWeek := Some key,
                       stored_sleepLogs := Some [], stored_currentWeek := Some key\<rparr>)
           else Inr s))"

text \<open>
  The key \<open>checkAndResetWeeklyData\<close> computes in its first two statements, \<open>None\<close> when
  \<^verbatim>\<open>toISOString\<close> throws.
\<close>

definition computed_week_key :: "int \<Rightarrow> int \<Rightarrow> string option" where
  "computed_week_key tz now = map_option weekStartKey (getWeekStartDate tz now)"

subsection \<open>Duration\<close>

text \<open>
  \<open>calculateDuration\<close>: a comparison with an invalid date is false and arithmetic on it
  gives \<^verbatim>\<open>NaN\<close>, which \<^verbatim>\<open>toFixed\<close> renders as \<^verbatim>\<open>NaN\<close>.
\<close>

definition calculateDuration :: "int \<Rightarrow> string \<Rightarrow> string \<Rightarrow> string" where
  "calculateDuration tz sleepTime wakeTime =
     (let sleep = Date_parse tz (''2000-01-01T'' @ sleepTime @ '':00'');
          wake = Date_parse tz (''2000-01-01T'' @ wakeTime @ '':00'')
      in case (sleep, wake) of
           (Some sl, Some wk) \<Rightarrow>
             (let wake' = (if wk < sl then setDate tz wk (getDate tz wk + 1) else wk);
                  durationMs = wake' - sl
              in if durationMs < 0
                 then CHR ''-'' # toFixed1 (fl_div (- durationMs) (1000 * 60 * 60))
                 else toFixed1 (fl_div durationMs (1000 * 60 * 60)))
         | _ \<Rightarrow> ''NaN'')"

text \<open>
  The integer that \<^verbatim>\<open>toFixed(1)\<close> renders when \<open>calculateDuration\<close> divides a difference
  of \<open>el\<close> minutes, in milliseconds, by the milliseconds of an hour.
\<close>

definition duration_tenths :: "int \<Rightarrow> int" where
  "duration_tenths el = toFixed1_n (fl_div (el * 60000) (1000 * 60 * 60))"

text \<open>
  The elapsed time of the specification, in minutes, for a sleep and a wake time given
  in minutes after midnight: the wake time is on the next day if it is before the sleep
  time, on the same day otherwise.
\<close>

definition elapsed_minutes :: "int \<Rightarrow> int \<Rightarrow> int" where
  "elapsed_minutes sleep wake = (if wake < sleep then wake + 24 * 60 - sleep else wake - sleep)"

subsection \<open>Saving a log\<close>

text \<open>
  \<open>saveSleepLog\<close> with the two input values and the clock. With an empty input it only
  shows an error dialog.
\<close>

definition saveSleepLog :: "int \<Rightarrow> int \<Rightarrow> string \<Rightarrow> string \<Rightarrow> sleep_state \<Rightarrow> sleep_state" where
  "saveSleepLog tz now sleepTime wakeTime s =
     (if sleepTime = [] \<or> wakeTime = [] then s
      else
        let duration = calculateDuration tz sleepTime wakeTime;
            log = \<lparr>log_date = getLocalDateKey tz now, log_sleepTime = sleepTime,
                   log_wakeTime = wakeTime, log_duration = duration\<rparr>;
            logs = (case findIndex (\<lambda>l. log_date l = log_date log) (sleepLogs s) of
                      Some existingLogIndex \<Rightarrow> (sleepLogs s)[existingLogIndex := log]
                    | None \<Rightarrow> sleepLogs s @ [log])
        in s\<lparr>sleepLogs := logs, stored_sleepLogs := Some logs\<rparr>)"

text \<open>The log object that \<open>saveSleepLog\<close> builds from its inputs.\<close>

definition new_log :: "int \<Rightarrow> int \<Rightarrow> string \<Rightarrow> string \<Rightarrow> sleep_log" where
  "new_log tz now sleepTime wakeTime =
     \<lparr>log_date = getLocalDateKey tz now, log_sleepTime = sleepTime, log_wakeTime = wakeTime,
      log_duration = calculateDuration tz sleepTime wakeTime\<rparr>"

subsection \<open>The week's slots\<close>

record 'n day_slot =
  slot_date :: string
  slot_duration :: 'n
  slot_day :: string

definition daysInWeek :: "string list" where
  "daysInWeek = [''Mon'', ''Tue'', ''Wed'', ''Thu'', ''Fri'', ''Sat'', ''Sun'']"

text \<open>
  One round of the loop of \<open>getLast7DaysData\<close>. \<^verbatim>\<open>parseFloat\<close> is a parameter, with any
  type of numbers that has a zero. On an invalid week start every field of the date is
  \<^verbatim>\<open>NaN\<close>.
\<close>

definition week_slot ::
  "(string \<Rightarrow> 'n::zero) \<Rightarrow> int \<Rightarrow> int option \<Rightarrow> sleep_log list \<Rightarrow> nat \<Rightarrow> 'n day_slot" where
  "week_slot parseFloat tz weekStart logs i =
     (let dateString =
            (case weekStart of
               None \<Rightarrow> ''NaN-NaN-NaN''
             | Some ws \<Rightarrow>
                 (let date = setDate tz ws (getDate tz ws + int i);
                      year = getFullYear tz date;
                      month = padStart 2 CHR ''0'' (str_int (getMonth tz date + 1));
                      day = padStart 2 CHR ''0'' (str_int (getDate tz date))
                  in str_int year @ ''-'' @ month @ ''-'' @ day));
          log = find (\<lambda>log. log_date log = dateString) logs
      in \<lparr>slot_date = dateString,
          slot_duration = (case log of None \<Rightarrow> 0 | Some l \<Rightarrow> parseFloat (log_duration l)),
          slot_day = daysInWeek ! i\<rparr>)"

function week_loop :: "(nat \<Rightarrow> 'a) \<Rightarrow> nat \<Rightarrow> 'a list \<Rightarrow> 'a list" where
  "week_loop body i last7Days =
     (if i < 7 then week_loop body (Suc i) (last7Days @ [body i]) else last7Days)"
  by pat_completeness auto
termination
  by (relation "measure (\<lambda>(body, i, last7Days). 7 - i)") auto

declare week_loop.simps [simp del]

text \<open>\<open>getLast7DaysData\<close> returns the slots and the state it leaves behind.\<close>

definition getLast7DaysData ::
  "(string \<Rightarrow> 'n::zero) \<Rightarrow> int \<Rightarrow> int \<Rightarrow> sleep_state \<Rightarrow> 'n day_slot list \<times> sleep_state" where
  "getLast7DaysData parseFloat tz now s =
     (let weekStart = getWeekStartDate tz now in
      (week_loop (week_slot parseFloat tz weekStart (sleepLogs s)) 0 [], s))"

text \<open>
  The time string \<open>applySelectedTime\<close> writes into the two inputs from the picker's
  hour (0..23 after the AM/PM conversion) and minute.
\<close>

definition timeString :: "int \<Rightarrow> int \<Rightarrow> string" where
  "timeString hour24 selectedMinute =
     padStart 2 CHR ''0'' (str_int hour24) @ '':'' @ padStart 2 CHR ''0'' (str_int selectedMinute)"

section \<open>Stored JSON and loading (sleep.js, todo.js)\<close>

text \<open>
  What \<^verbatim>\<open>localStorage.getItem\<close> finds under a key: nothing, a text that is not JSON, or
  the JSON text of a value. \<^verbatim>\<open>JSON.parse(null)\<close> parses the text \<^verbatim>\<open>null\<close>; a text that is
  not JSON makes it throw a \<^verbatim>\<open>SyntaxError\<close>. A JavaScript value is a \<open>json option\<close>, with
  \<open>None\<close> for \<^verbatim>\<open>undefined\<close>. Numbers are the integers.
\<close>

datatype json =
  JNull | JBool bool | JNum int | JStr string | JArr "json list" | JObj "(string \<times> json) list"

datatype stored_item = NoItem | NotJSON | JSONText json

definition JSON_parse :: "stored_item \<Rightarrow> error + json" where
  "JSON_parse item =
     (case item of NoItem \<Rightarrow> Inr JNull | NotJSON \<Rightarrow> Inl SyntaxError | JSONText v \<Rightarrow> Inr v)"

fun truthy :: "json option \<Rightarrow> bool" where
  "truthy None = False"
| "truthy (Some JNull) = False"
| "truthy (Some (JBool b)) = b"
| "truthy (Some (JNum n)) = (n \<noteq> 0)"
| "truthy (Some (JStr s)) = (s \<noteq> [])"
| "truthy (Some (JArr xs)) = True"
| "truthy (Some (JObj kvs)) = True"

text \<open>\<^verbatim>\<open>a || b\<close>\<close>

definition or_else :: "json option \<Rightarrow> json option \<Rightarrow> json option" where
  "or_else a b = (if truthy a then a else b)"

text \<open>
  \<^verbatim>\<open>v.k\<close> for a value that is neither \<^verbatim>\<open>null\<close> nor \<^verbatim>\<open>undefined\<close> and a key that no
  prototype defines, and \<^verbatim>\<open>v?.k\<close> for any value.
\<close>

fun get_prop :: "json \<Rightarrow> string \<Rightarrow> json option" where
  "get_prop (JObj kvs) k = map_of kvs k"
| "get_prop v k = None"

definition opt_prop :: "json option \<Rightarrow> string \<Rightarrow> json option" where
  "opt_prop v k = (case v of None \<Rightarrow> None | Some JNull \<Rightarrow> None | Some w \<Rightarrow> get_prop w k)"

text \<open>The two initialisers of sleep.js (lines 41 and 42).\<close>

definition init_sleepLogs :: "stored_item \<Rightarrow> error + json option" where
  "init_sleepLogs item =
     (case JSON_parse item of
        Inl e \<Rightarrow> Inl e
      | Inr v \<Rightarrow> Inr (or_else (Some v) (Some (JArr []))))"

definition init_currentWeek :: "stored_item \<Rightarrow> error + json option" where
  "init_currentWeek item =
     (case JSON_parse item of
        Inl e \<Rightarrow> Inl e
      | Inr v \<Rightarrow> Inr (or_else (Some v) (Some JNull)))"

text \<open>
  The state object of todo.js as \<open>loadFromStorage\<close> fills it: each field holds whatever
  value the stored JSON gives. Applying the theme to the document, which follows, is
  not part of the model.
\<close>

record loaded_state =
  ld_todos :: "json option"
  ld_dailies :: "json option"
  ld_habits :: "json option"
  ld_theme :: "json option"
  ld_health :: "json option"
  ld_xp :: "json option"
  ld_level :: "json option"

definition initial_state :: loaded_state where
  "initial_state =
     \<lparr>ld_todos = Some (JArr []), ld_dailies = Some (JArr []), ld_habits = Some (JArr []),
      ld_theme = Some (JStr ''light''), ld_health = Some (JNum 100), ld_xp = Some (JNum 0),
      ld_level = Some (JNum 1)\<rparr>"

definition loadFromStorage :: "stored_item \<Rightarrow> loaded_state \<Rightarrow> error + loaded_state" where
  "loadFromStorage item state =
     (case JSON_parse item of
        Inl e \<Rightarrow> Inl e
      | Inr data \<Rightarrow>
          if truthy (Some data)
          then Inr (state\<lparr>
            ld_todos := or_else (opt_prop (get_prop data ''tasks'') ''todos'') (Some (JArr [])),
            ld_dailies := or_else (opt_prop (get_prop data ''tasks'') ''dailies'') (Some (JArr [])),
            ld_habits := or_else (opt_prop (get_prop data ''tasks'') ''habits'') (Some (JArr [])),
            ld_theme := or_else (get_prop data ''theme'') (Some (JStr ''light'')),
            ld_health := or_else (get_prop data ''health'') (Some (JNum 75)),
            ld_xp := or_else (get_prop data ''xp'') (Some (JNum 45)),
            ld_level := or_else (get_prop data ''level'') (Some (JNum 3))\<rparr>)
          else Inr state)"

section \<open>The quest list (todo.js)\<close>

text \<open>
  A task; \<open>task_deadline\<close> and \<open>task_streak\<close> are \<open>None\<close> when the property is absent
  (\<^verbatim>\<open>streak++\<close> on an absent streak gives \<^verbatim>\<open>NaN\<close>, which stays \<open>None\<close>).
  The state is the object \<^verbatim>\<open>state\<close>; \<open>questifyData\<close> is what \<^verbatim>\<open>localStorage\<close> holds under
  that key, as the value its JSON text denotes.
\<close>

record task =
  task_id :: int
  task_title :: string
  task_type :: string
  task_notes :: string
  task_priority :: string
  task_createdAt :: string
  task_completed :: bool
  task_deadline :: "string option"
  task_streak :: "int option"

record quest_data =
  todos :: "task list"
  dailies :: "task list"
  habits :: "task list"
  theme :: string
  health :: int
  xp :: int
  level :: int

record todo_state = quest_data +
  questifyData :: "quest_data option"

definition saveToStorage :: "todo_state \<Rightarrow> todo_state" where
  "saveToStorage s = s\<lparr>questifyData := Some (quest_data.truncate s)\<rparr>"

text \<open>\<^verbatim>\<open>trim()\<close> on the white space of ASCII.\<close>

definition is_space :: "char \<Rightarrow> bool" where
  "is_space c = (c \<in> set [CHR '' '', CHR 0x09, CHR 0x0A, CHR 0x0B, CHR 0x0C, CHR 0x0D])"

definition trim :: "string \<Rightarrow> string" where
  "trim s = rev (dropWhile is_space (rev (dropWhile is_space s)))"

text \<open>
  The values \<open>handleAddTask\<close> reads from the form. Its two readings of the clock, for
  the id and for \<^verbatim>\<open>createdAt\<close>, are taken as one instant \<open>now\<close>.
\<close>

record task_form =
  taskTitle :: string
  taskType :: string
  taskNotes :: string
  taskPriority :: string
  taskDeadline :: string

definition handleAddTask :: "task_form \<Rightarrow> int \<Rightarrow> todo_state \<Rightarrow> todo_state" where
  "handleAddTask form now s =
     (let title = trim (taskTitle form); type = taskType form in
      if title = [] then s
      else
        let task = \<lparr>task_id = now, task_title = title, task_type = type,
                    task_notes = taskNotes form, task_priority = taskPriority form,
                    task_createdAt = toISOString now, task_completed = False,
                    task_deadline = None, task_streak = None\<rparr>;
            s1 = (if type = ''todo''
                  then s\<lparr>todos := todos s @
                         [if taskDeadline form \<noteq> []
                          then task\<lparr>task_deadline := Some (taskDeadline form)\<rparr> else task]\<rparr>
                  else if type = ''daily'' then s\<lparr>dailies := dailies s @ [task]\<rparr>
                  else s\<lparr>habits := habits s @ [task\<lparr>task_streak := Some 0\<rparr>]\<rparr>);
            s2 = s1\<lparr>xp := min 100 (xp s1 + 3)\<rparr>
        in saveToStorage s2)"

text \<open>
  \<^verbatim>\<open>find\<close> returns the task object itself, so an assignment to one of its properties
  changes the first task of the list that has the id.
\<close>

fun update_first :: "('a \<Rightarrow> bool) \<Rightarrow> ('a \<Rightarrow> 'a) \<Rightarrow> 'a list \<Rightarrow> 'a list" where
  "update_first P f [] = []"
| "update_first P f (x # xs) = (if P x then f x # xs else x # update_first P f xs)"

definition level_up :: "todo_state \<Rightarrow> todo_state" where
  "level_up s = (if xp s \<ge> 100 then s\<lparr>level := level s + 1, xp := 0\<rparr> else s)"

text \<open>
  \<open>completeTask\<close>: for a daily or a habit whose id is not in the list, \<^verbatim>\<open>task\<close> is
  \<^verbatim>\<open>undefined\<close> and the access to its property throws a \<^verbatim>\<open>TypeError\<close> before anything
  has changed. The result is the exception, if any, and the state.
\<close>

definition completeTask :: "string \<Rightarrow> int \<Rightarrow> todo_state \<Rightarrow> error option \<times> todo_state" where
  "completeTask type tid s =
     (if type = ''todo'' then
        (let s1 = s\<lparr>todos := filter (\<lambda>t. task_id t \<noteq> tid) (todos s)\<rparr>;
             s2 = s1\<lparr>xp := min 100 (xp s1 + 8)\<rparr>
         in (None, saveToStorage (level_up s2)))
      else if type = ''daily'' then
        (case find (\<lambda>t. task_id t = tid) (dailies s) of
           None \<Rightarrow> (Some TypeError, s)
         | Some task \<Rightarrow>
             (let s1 = s\<lparr>dailies := update_first (\<lambda>t. task_id t = tid)
                                      (\<lambda>t. t\<lparr>task_completed := True\<rparr>) (dailies s)\<rparr>;
                  s2 = s1\<lparr>xp := min 100 (xp s1 + 5)\<rparr>
              in (None, saveToStorage (level_up s2))))
      else
        (case find (\<lambda>t. task_id t = tid) (habits s) of
           None \<Rightarrow> (Some TypeError, s)
         | Some task \<Rightarrow>
             (let s1 = s\<lparr>habits := update_first (\<lambda>t. task_id t = tid)
                                     (\<lambda>t. t\<lparr>task_streak := map_option (\<lambda>n. n + 1) (task_streak t)\<rparr>)
                                     (habits s)\<rparr>;
                  s2 = s1\<lparr>xp := min 100 (xp s1 + 2)\<rparr>
              in (None, saveToStorage (level_up s2)))))"

definition deleteTask :: "string \<Rightarrow> int \<Rightarrow> todo_state \<Rightarrow> todo_state" where
  "deleteTask type tid s =
     (let s1 = (if type = ''todo''
                then (let s0 = s\<lparr>todos := filter (\<lambda>t. task_id t \<noteq> tid) (todos s)\<rparr>
                      in s0\<lparr>health := max 0 (health s0 - 5)\<rparr>)
                else if type = ''daily''
                then s\<lparr>dailies := filter (\<lambda>t. task_id t \<noteq> tid) (dailies s)\<rparr>
                else s\<lparr>habits := filter (\<lambda>t. task_id t \<noteq> tid) (habits s)\<rparr>)
      in saveToStorage s1)"

text \<open>The bounds of the two progress bars.\<close>

definition counters_bounded :: "todo_state \<Rightarrow> bool" where
  "counters_bounded s = (0 \<le> health s \<and> health s \<le> 100 \<and> 0 \<le> xp s \<and> xp s \<le> 100)"

definition xp_gain :: "string \<Rightarrow> int" where
  "xp_gain type = (if type = ''todo'' then 8 else if type = ''daily'' then 5 else 2)"

section \<open>Concrete inputs\<close>

text \<open>States and inputs at which the theorems below are instantiated.\<close>

definition example_task :: task where
  "example_task =
     \<lparr>task_id = 7, task_title = ''Read'', task_type = ''todo'', task_notes = [],
      task_priority = ''medium'', task_createdAt = ''2024-01-03T04:30:00.000Z'',
      task_completed = False, task_deadline = None, task_streak = None\<rparr>"

definition example_quests :: todo_state where
  "example_quests =
     \<lparr>todos = [example_task], dailies = [], habits = [], theme = ''light'', health = 3,
      xp = 95, level = 2, questifyData = None\<rparr>"

definition example_form :: task_form where
  "example_form =
     \<lparr>taskTitle = '' Walk '', taskType = ''habit'', taskNotes = [], taskPriority = ''low'',
      taskDeadline = []\<rparr>"

text \<open>
  A sleep log of Saturday 2023-12-30 and a week marker of the week before, as stored in a
  zone five and a half hours east of UTC (\<open>tz = 330\<close>). The clock values used with it:
  \<open>1704256200000\<close> is Wednesday 2024-01-03 10:00 there, \<open>1704047400000\<close> is Monday
  2024-01-01 00:00 there and \<open>1704652199999\<close> the last millisecond of the following Sunday;
  \<open>1704067200000\<close> is that Monday midnight as a local time value.
\<close>

definition example_log :: sleep_log where
  "example_log =
     \<lparr>log_date = ''2023-12-30'', log_sleepTime = ''22:00'', log_wakeTime = ''06:30'',
      log_duration = ''8.5''\<rparr>"

definition example_sleep :: sleep_state where
  "example_sleep =
     \<lparr>sleepLogs = [example_log], currentWeek = Some ''2023-12-24'',
      stored_sleepLogs = Some [example_log], stored_currentWeek = Some ''2023-12-24''\<rparr>"

text \<open>
  A stand-in for \<^verbatim>\<open>parseFloat\<close> in the examples: the value of a string \<^verbatim>\<open>d.d\<close>, in tenths.
\<close>

definition tenths :: "string \<Rightarrow> int" where
  "tenths d = (case Number (filter (\<lambda>c. c \<noteq> CHR ''.'') d) of None \<Rightarrow> 0 | Some n \<Rightarrow> n)"

text \<open>Two logs of the week of Monday 2024-01-01.\<close>

definition example_week :: sleep_state where
  "example_week =
     \<lparr>sleepLogs =
        [\<lparr>log_date = ''2024-01-02'', log_sleepTime = ''22:00'', log_wakeTime = ''06:30'',
          log_duration = ''8.5''\<rparr>,
         \<lparr>log_date = ''2024-01-03'', log_sleepTime = ''01:00'', log_wakeTime = ''06:00'',
          log_duration = ''5.0''\<rparr>],
      currentWeek = Some ''2023-12-31'',
      stored_sleepLogs = None, stored_currentWeek = Some ''2023-12-31''\<rparr>"

text \<open>A stored task-list object whose \<^verbatim>\<open>todos\<close> is a number and whose \<^verbatim>\<open>xp\<close> is 0.\<close>

definition example_stored :: json where
  "example_stored = JObj [(''tasks'', JObj [(''todos'', JNum 5)]), (''xp'', JNum 0)]"

section \<open>Lemmas: calendar arithmetic\<close>

text \<open>Bounds of a quotient by a positive divisor, in the form linear arithmetic uses.\<close>

lemma div_lower: "0 < n \<Longrightarrow> n * (a div n) \<le> (a::int)"
  using pos_mod_sign [of n a] mult_div_mod_eq [of n a] by linarith

lemma div_upper: "0 < n \<Longrightarrow> (a::int) < n * (a div n) + n"
  using pos_mod_bound [of n a] mult_div_mod_eq [of n a] by linarith

lemma DayFromYear_upper: "400 * DayFromYear y \<le> 146097 * (y - 1970) + 589"
proof -
  define A B C where "A = (y - 1969) div 4" and "B = (y - 1901) div 100" and "C = (y - 1601) div 400"
  have a: "4 * A \<le> y - 1969" unfolding A_def by (rule div_lower) simp
  have b: "y - 1901 \<le> 100 * B + 99" unfolding B_def using div_upper [of 100 "y - 1901"] by simp
  have c: "400 * C \<le> y - 1601" unfolding C_def by (rule div_lower) simp
  have "DayFromYear y = 365 * (y - 1970) + A - B + C"
    by (simp add: DayFromYear_def A_def B_def C_def)
  then show ?thesis using a b c by (simp add: algebra_simps)
qed

lemma DayFromYear_lower: "146097 * (y - 1970) - 506 \<le> 400 * DayFromYear y"
proof -
  define A B C where "A = (y - 1969) div 4" and "B = (y - 1901) div 100" and "C = (y - 1601) div 400"
  have a: "y - 1969 \<le> 4 * A + 3" unfolding A_def using div_upper [of 4 "y - 1969"] by simp
  have b: "100 * B \<le> y - 1901" unfolding B_def by (rule div_lower) simp
  have c: "y - 1601 \<le> 400 * C + 399" unfolding C_def using div_upper [of 400 "y - 1601"] by simp
  have "DayFromYear y = 365 * (y - 1970) + A - B + C"
    by (simp add: DayFromYear_def A_def B_def C_def)
  then show ?thesis using a b c by (simp add: algebra_simps)
qed

lemma YearFromDay_spec:
  "DayFromYear (YearFromDay d) \<le> d \<and> d < DayFromYear (YearFromDay d + 1)"
proof -
  define u where "u = (400 * d) div 146097"
  have u1: "146097 * u \<le> 400 * d" and u2: "400 * d < 146097 * (u + 1)"
    unfolding u_def using div_lower [of 146097 "400 * d"] div_upper [of 146097 "400 * d"]
    by simp_all
  have up: "400 * DayFromYear (1970 + u - 1) \<le> 146097 * (u - 1) + 589"
    using DayFromYear_upper [of "1970 + u - 1"] by simp
  have lo: "146097 * (u + 2) - 506 \<le> 400 * DayFromYear (1970 + u + 1 + 1)"
    using DayFromYear_lower [of "1970 + u + 1 + 1"] by simp
  have A: "DayFromYear (1970 + u - 1) \<le> d" using up u1 by (simp add: algebra_simps)
  have B: "d < DayFromYear (1970 + u + 1 + 1)" using lo u2 by (simp add: algebra_simps)
  show ?thesis
    unfolding YearFromDay_def Let_def u_def [symmetric]
    using A B by (auto simp: algebra_simps)
qed

lemma div_step:
  assumes n: "0 < (n::int)"
  shows "(a + 1) div n = a div n + (if (a + 1) mod n = 0 then 1 else 0)"
proof -
  define q r where "q = a div n" and "r = a mod n"
  have a: "a = n * q + r" and r0: "0 \<le> r" and rn: "r < n"
    using n by (simp_all add: q_def r_def)
  show ?thesis
  proof (cases "r + 1 < n")
    case True
    have e: "a + 1 = n * q + (r + 1)" using a by simp
    have "(a + 1) div n = q" using e r0 True by (intro int_div_pos_eq [of _ _ _ "r + 1"]) simp_all
    moreover have "(a + 1) mod n = r + 1" using e r0 True by (intro int_mod_pos_eq [of _ _ q]) simp_all
    ultimately show ?thesis using r0 by (simp add: q_def)
  next
    case False
    then have rn1: "r + 1 = n" using rn by simp
    have e: "a + 1 = n * (q + 1) + 0" using a rn1 by (simp add: algebra_simps)
    have "(a + 1) div n = q + 1" using e n by (intro int_div_pos_eq [of _ _ _ 0]) simp_all
    moreover have "(a + 1) mod n = 0" using e n by (intro int_mod_pos_eq [of _ _ "q + 1"]) simp_all
    ultimately show ?thesis by (simp add: q_def)
  qed
qed

lemma mod_shift: "((y::int) - n * k) mod n = y mod n"
  using mod_mult_self2 [of "y - n * k" n k] by simp

lemma floor_step:
  assumes "0 < (n::int)" "c - 1 = n * k"
  shows "(y + 1 - c) div n = (y - c) div n + (if y mod n = 0 then 1 else 0)"
proof -
  have "y - c + 1 = y - n * k" using assms(2) by simp
  then have m: "(y - c + 1) mod n = y mod n" by (simp only: mod_shift)
  have e: "y + 1 - c = y - c + 1" by simp
  show ?thesis by (simp only: e div_step [OF assms(1)] m)
qed

lemma DayFromYear_Suc: "DayFromYear (y + 1) = DayFromYear y + DaysInYear y"
proof -
  have s4: "(y + 1 - 1969) div 4 = (y - 1969) div 4 + (if y mod 4 = 0 then 1 else 0)"
    by (rule floor_step [where k = 492]) simp_all
  have s100: "(y + 1 - 1901) div 100 = (y - 1901) div 100 + (if y mod 100 = 0 then 1 else 0)"
    by (rule floor_step [where k = 19]) simp_all
  have s400: "(y + 1 - 1601) div 400 = (y - 1601) div 400 + (if y mod 400 = 0 then 1 else 0)"
    by (rule floor_step [where k = 4]) simp_all
  have m1: "y mod 400 = 0 \<Longrightarrow> y mod 100 = 0"
    using dvd_trans [of 100 400 y] by (simp add: dvd_eq_mod_eq_0 [symmetric])
  have m2: "y mod 100 = 0 \<Longrightarrow> y mod 4 = 0"
    using dvd_trans [of 4 100 y] by (simp add: dvd_eq_mod_eq_0 [symmetric])
  have "DayFromYear (y + 1) = 365 * (y - 1970) + 365 + (y + 1 - 1969) div 4
          - (y + 1 - 1901) div 100 + (y + 1 - 1601) div 400"
    by (simp add: DayFromYear_def algebra_simps)
  also have "\<dots> = DayFromYear y + ((if y mod 4 = 0 then 1 else 0) - (if y mod 100 = 0 then 1 else 0)
      + (if y mod 400 = 0 then 1 else 0) + 365)"
    unfolding s4 s100 s400 by (simp add: DayFromYear_def)
  also have "(if y mod 4 = 0 then 1 else 0) - (if y mod 100 = 0 then 1 else 0)
      + (if y mod 400 = 0 then 1 else 0) + 365 = DaysInYear y"
    using m1 m2 by (cases "y mod 4 = 0"; cases "y mod 100 = 0"; cases "y mod 400 = 0")
      (simp_all add: DaysInYear_def leap_year_def)
  finally show ?thesis .
qed

lemma DaysInYear_bounds: "365 \<le> DaysInYear y \<and> DaysInYear y \<le> 366"
  by (simp add: DaysInYear_def)

lemma DayFromYear_mono: "y \<le> y' \<Longrightarrow> DayFromYear y \<le> DayFromYear y'"
proof (induction y' rule: int_ge_induct)
  case base
  show ?case by simp
next
  case (step i)
  have "DayFromYear i \<le> DayFromYear (i + 1)"
    using DayFromYear_Suc [of i] DaysInYear_bounds [of i] by simp
  with step.IH show ?case by simp
qed

lemma YearFromDay_unique:
  assumes "DayFromYear y \<le> d" "d < DayFromYear (y + 1)"
  shows "YearFromDay d = y"
proof (rule ccontr)
  assume ne: "YearFromDay d \<noteq> y"
  have sp: "DayFromYear (YearFromDay d) \<le> d" "d < DayFromYear (YearFromDay d + 1)"
    using YearFromDay_spec [of d] by simp_all
  show False
  proof (cases "YearFromDay d < y")
    case True
    then have "DayFromYear (YearFromDay d + 1) \<le> DayFromYear y"
      by (intro DayFromYear_mono) simp
    with sp(2) assms(1) show False by simp
  next
    case False
    with ne have "DayFromYear (y + 1) \<le> DayFromYear (YearFromDay d)"
      by (intro DayFromYear_mono) simp
    with sp(1) assms(2) show False by simp
  qed
qed

lemma InLeapYear_eq: "InLeapYear t = (if leap_year (YearFromTime t) then 1 else 0)"
  by (simp add: InLeapYear_def DaysInYear_def)

lemma DayWithinYear_bounds:
  "0 \<le> DayWithinYear t \<and> DayWithinYear t < DaysInYear (YearFromTime t)"
  using YearFromDay_spec [of "Day t"] DayFromYear_Suc [of "YearFromDay (Day t)"]
  by (simp add: DayWithinYear_def YearFromTime_def)

lemma MonthFromTime_range: "0 \<le> MonthFromTime t \<and> MonthFromTime t \<le> 11"
  by (simp add: MonthFromTime_def Let_def)

lemma month_start_MonthFromTime:
  "month_start (InLeapYear t) (MonthFromTime t) \<le> DayWithinYear t"
  using DayWithinYear_bounds [of t]
  by (simp add: MonthFromTime_def Let_def month_start_def)

lemma DateFromTime_pos: "1 \<le> DateFromTime t"
  using month_start_MonthFromTime [of t] by (simp add: DateFromTime_def)

lemma MakeDay_fields:
  "MakeDay (YearFromTime t) (MonthFromTime t) (DateFromTime t + k) = Day t + k"
proof -
  have m: "MonthFromTime t div 12 = 0" "MonthFromTime t mod 12 = MonthFromTime t"
    using MonthFromTime_range [of t] by simp_all
  show ?thesis
    by (simp add: MakeDay_def Let_def m DateFromTime_def InLeapYear_eq DayWithinYear_def)
qed

section \<open>Lemmas: Date objects and date keys\<close>

lemma Day_TimeWithinDay: "Day t * msPerDay + TimeWithinDay t = t"
  by (simp add: Day_def TimeWithinDay_def)

lemma Day_of_day [simp]: "Day (d * msPerDay) = d"
  by (simp add: Day_def msPerDay_def)

lemma Day_eqI: "d * msPerDay \<le> t \<Longrightarrow> t < d * msPerDay + msPerDay \<Longrightarrow> Day t = d"
  unfolding Day_def msPerDay_def
  by (rule int_div_pos_eq [of _ _ _ "t - d * 86400000"]) simp_all

lemma LocalTime_UTC [simp]: "LocalTime tz (UTC tz t) = t" "UTC tz (LocalTime tz t) = t"
  by (simp_all add: LocalTime_def UTC_def)

lemma setDate_getDate: "setDate tz t (getDate tz t + k) = t + k * msPerDay"
proof -
  have "MakeDate (Day (LocalTime tz t) + k) (TimeWithinDay (LocalTime tz t)) = LocalTime tz t + k * msPerDay"
    using Day_TimeWithinDay [of "LocalTime tz t"] by (simp add: MakeDate_def algebra_simps)
  then show ?thesis
    by (simp add: setDate_def getDate_def Let_def MakeDay_fields LocalTime_def UTC_def)
qed

lemma setHours_midnight: "setHours tz t 0 0 0 0 = UTC tz (Day (LocalTime tz t) * msPerDay)"
  by (simp add: setHours_def Let_def MakeDate_def MakeTime_def)

lemma less_10_cases:
  "n < 10 \<Longrightarrow> n \<in> {0, 1, 2, 3, 4, 5, 6, 7, 8, 9::nat}"
  by auto

lemma digit_val_digit_char: "n < 10 \<Longrightarrow> digit_val (digit_char n) = Some n"
  using less_10_cases [of n] by (auto simp: digit_val_def digit_char_def decimal_digits_def)

lemma digit_char_not_minus: "CHR ''-'' \<noteq> digit_char n"
  using less_10_cases [of "n mod 10"] by (auto simp: digit_char_def decimal_digits_def)

lemma digits_val_append:
  "digits_val acc (xs @ [c]) =
     (case digits_val acc xs of None \<Rightarrow> None
      | Some v \<Rightarrow> (case digit_val c of None \<Rightarrow> None | Some d \<Rightarrow> Some (10 * v + d)))"
  by (induction xs arbitrary: acc) (auto split: option.splits)

lemma digits_val_str_nat: "digits_val 0 (str_nat n) = Some n"
proof (induction n rule: str_nat.induct)
  case (1 n)
  show ?case
  proof (cases "n < 10")
    case True
    then show ?thesis by (simp add: str_nat.simps [of n] digit_val_digit_char)
  next
    case False
    then have "digits_val 0 (str_nat (n div 10)) = Some (n div 10)" using 1 by simp
    then show ?thesis using False
      by (simp add: str_nat.simps [of n] digits_val_append digit_val_digit_char)
  qed
qed

lemma digits_val_zeros: "digits_val 0 (replicate k CHR ''0'' @ s) = digits_val 0 s"
  by (induction k) (simp_all add: digit_val_def decimal_digits_def)

lemma digits_val_padStart: "digits_val 0 (padStart k CHR ''0'' (str_nat n)) = Some n"
  by (simp add: padStart_def digits_val_zeros digits_val_str_nat)

lemma str_nat_no_minus: "CHR ''-'' \<notin> set (str_nat n)"
proof (induction n rule: str_nat.induct)
  case (1 n)
  then show ?case
    by (cases "n < 10") (simp_all add: str_nat.simps [of n] digit_char_not_minus)
qed

lemma padStart_no_minus: "CHR ''-'' \<notin> set (padStart k CHR ''0'' (str_nat n))"
  by (auto simp: padStart_def str_nat_no_minus)

lemma split_chr_none: "c \<notin> set a \<Longrightarrow> split_chr c a = [a]"
  by (induction a) auto

lemma split_chr_append: "c \<notin> set a \<Longrightarrow> split_chr c (a @ c # rest) = a # split_chr c rest"
  by (induction a) auto

lemma str_int_nonneg: "0 \<le> i \<Longrightarrow> str_int i = str_nat (nat i)"
  by (simp add: str_int_def)

lemma Number_str_nat: "Number (str_nat n) = Some (int n)"
  by (simp add: Number_def digits_val_str_nat)

lemma Number_padStart: "Number (padStart k CHR ''0'' (str_nat n)) = Some (int n)"
  by (simp add: Number_def digits_val_padStart)

lemma getMonth_range: "0 \<le> getMonth tz t \<and> getMonth tz t \<le> 11"
  by (simp add: getMonth_def MonthFromTime_range)

lemma getDate_pos: "1 \<le> getDate tz t"
  by (simp add: getDate_def DateFromTime_pos)

lemma getLocalDateKey_nonneg:
  assumes "0 \<le> getFullYear tz now"
  shows "getLocalDateKey tz now =
           str_nat (nat (getFullYear tz now)) @ CHR ''-'' #
           padStart 2 CHR ''0'' (str_nat (nat (getMonth tz now + 1))) @ CHR ''-'' #
           padStart 2 CHR ''0'' (str_nat (nat (getDate tz now)))"
  using assms getMonth_range [of tz now] getDate_pos [of tz now]
  by (simp add: getLocalDateKey_def Let_def str_int_nonneg)

lemma key_pieces:
  assumes "0 \<le> getFullYear tz now"
  shows "map Number (split_chr CHR ''-'' (getLocalDateKey tz now)) =
           [Some (getFullYear tz now), Some (getMonth tz now + 1), Some (getDate tz now)]"
  using assms getMonth_range [of tz now] getDate_pos [of tz now]
  by (simp add: getLocalDateKey_nonneg split_chr_append split_chr_none str_nat_no_minus
      padStart_no_minus Number_str_nat Number_padStart)

lemma new_Date_today:
  assumes "100 \<le> getFullYear tz now"
  shows "new_Date tz (getFullYear tz now) (getMonth tz now) (getDate tz now) =
           UTC tz (Day (LocalTime tz now) * msPerDay)"
  using assms MakeDay_fields [of "LocalTime tz now" 0]
  by (simp add: new_Date_def Let_def getFullYear_def getMonth_def getDate_def MakeDate_def
      MakeTime_def)

lemma WeekDay_of_day: "WeekDay (d * msPerDay) = (d + 4) mod 7"
  by (simp add: WeekDay_def)

lemma getWeekStartDate_eq:
  assumes "100 \<le> getFullYear tz now"
  shows "getWeekStartDate tz now =
           Some (UTC tz ((Day (LocalTime tz now) -
                          (if WeekDay (LocalTime tz now) = 0 then 6
                           else WeekDay (LocalTime tz now) - 1)) * msPerDay))"
proof -
  define lt where "lt = LocalTime tz now"
  define today where "today = UTC tz (Day lt * msPerDay)"
  have wd: "getDay tz today = WeekDay lt"
    by (simp add: getDay_def today_def WeekDay_of_day) (simp add: WeekDay_def)
  have sh: "setHours tz (setDate tz today (getDate tz today - k)) 0 0 0 0 =
              UTC tz ((Day lt - k) * msPerDay)" for k
  proof -
    have sd: "setDate tz today (getDate tz today - k) = today - k * msPerDay"
      using setDate_getDate [of tz today "- k"] by simp
    have lt': "LocalTime tz (today - k * msPerDay) = (Day lt - k) * msPerDay"
      by (simp add: today_def LocalTime_def UTC_def algebra_simps)
    show ?thesis by (simp only: sd setHours_midnight lt' Day_of_day)
  qed
  have "0 \<le> getFullYear tz now" using assms by simp
  note kp = key_pieces [OF this]
  show ?thesis
    unfolding getWeekStartDate_def kp
    by (simp add: new_Date_today [OF assms] Let_def lt_def [symmetric] today_def [symmetric]
        wd sh)
qed

lemma Day_in_week:
  assumes "TimeWithinDay M = 0" "M \<le> lt" "lt < M + 7 * msPerDay"
  shows "Day M \<le> Day lt \<and> Day lt < Day M + 7"
proof -
  have M: "M = 86400000 * Day M"
    using assms(1) Day_TimeWithinDay [of M] by (simp add: msPerDay_def)
  have 1: "86400000 * Day lt \<le> lt" "lt < 86400000 * Day lt + 86400000"
    unfolding Day_def msPerDay_def by (rule div_lower, simp, rule div_upper, simp)
  have 2: "lt < 86400000 * Day M + 604800000"
    using assms(3) M by (simp add: msPerDay_def)
  have 3: "86400000 * Day M \<le> lt" using assms(2) M by simp
  from 1 2 3 show ?thesis by linarith
qed

lemma monday_offset:
  fixes q m :: int
  assumes "(m + 4) mod 7 = 1" "m \<le> q" "q < m + 7"
  shows "(if (q + 4) mod 7 = 0 then 6 else (q + 4) mod 7 - 1) = q - m"
proof -
  define k where "k = q - m"
  have k: "0 \<le> k" "k < 7" and q: "q + 4 = m + 4 + k" using assms(2,3) by (simp_all add: k_def)
  have "(m + 4 + k) mod 7 = (1 + k) mod 7"
    using mod_add_left_eq [of "m + 4" 7 k] assms(1) by simp
  moreover have "(1 + k) mod 7 = (if k = 6 then 0 else 1 + k)"
    using k by simp
  ultimately show ?thesis unfolding q using k by (simp add: k_def)
qed

lemma week_start_day:
  assumes "WeekDay M = 1" "TimeWithinDay M = 0" "M \<le> lt" "lt < M + 7 * msPerDay"
  shows "(Day lt - (if WeekDay lt = 0 then 6 else WeekDay lt - 1)) * msPerDay = M"
proof -
  have b: "Day M \<le> Day lt" "Day lt < Day M + 7"
    using Day_in_week [OF assms(2-4)] by simp_all
  have "(if WeekDay lt = 0 then 6 else WeekDay lt - 1) = Day lt - Day M"
    unfolding WeekDay_def using assms(1) b by (intro monday_offset) (simp_all add: WeekDay_def)
  then show ?thesis using Day_TimeWithinDay [of M] assms(2) by simp
qed

section \<open>The weekly reset\<close>

lemma digit_char_not_T: "CHR ''T'' \<noteq> digit_char n"
  using less_10_cases [of "n mod 10"] by (auto simp: digit_char_def decimal_digits_def)

lemma str_nat_no_T: "CHR ''T'' \<notin> set (str_nat n)"
proof (induction n rule: str_nat.induct)
  case (1 n)
  then show ?case
    by (cases "n < 10") (simp_all add: str_nat.simps [of n] digit_char_not_T)
qed

lemma str_int_no_T: "CHR ''T'' \<notin> set (str_int i)"
  by (simp add: str_int_def str_nat_no_T)

lemma padStart_no_T: "CHR ''T'' \<notin> set s \<Longrightarrow> CHR ''T'' \<notin> set (padStart k CHR ''0'' s)"
  by (auto simp: padStart_def)

lemma iso_year_no_T: "CHR ''T'' \<notin> set (iso_year y)"
  by (simp add: iso_year_def padStart_no_T str_nat_no_T)

lemma pad2_no_T: "CHR ''T'' \<notin> set (pad2 i)"
  by (simp add: pad2_def padStart_no_T str_int_no_T)

lemma toISOString_date: "first_piece (split_chr CHR ''T'' (toISOString t)) = iso_date t"
proof -
  have "CHR ''T'' \<notin> set (iso_date t)"
    by (simp add: iso_date_def iso_year_no_T pad2_no_T)
  moreover have "\<exists>rest. toISOString t = iso_date t @ CHR ''T'' # rest"
    by (simp add: toISOString_def iso_date_def)
  ultimately show ?thesis
    by (auto simp: split_chr_append first_piece_def)
qed

lemma weekStartKey_eq: "weekStartKey w = iso_date w"
  by (simp add: weekStartKey_def toISOString_date)

lemma iso_date_nonempty: "iso_date t \<noteq> []"
  by (simp add: iso_date_def)

lemma computed_week_key_eq:
  assumes "100 \<le> getFullYear tz now"
  shows "computed_week_key tz now =
           Some (iso_date (UTC tz ((Day (LocalTime tz now) -
                  (if WeekDay (LocalTime tz now) = 0 then 6
                   else WeekDay (LocalTime tz now) - 1)) * msPerDay)))"
  by (simp add: computed_week_key_def getWeekStartDate_eq [OF assms] weekStartKey_eq)

lemma checkAndResetWeeklyData_eq:
  assumes "computed_week_key tz now = Some key"
  shows "checkAndResetWeeklyData tz now s =
           Inr (if currentWeek s = Some key then s
                else s\<lparr>sleepLogs := [], currentWeek := Some key,
                       stored_sleepLogs := Some [], stored_currentWeek := Some key\<rparr>)"
proof -
  obtain w where w: "getWeekStartDate tz now = Some w" and k: "key = weekStartKey w"
    using assms by (auto simp: computed_week_key_def)
  have "key \<noteq> []" using k by (simp add: weekStartKey_eq iso_date_nonempty)
  then show ?thesis
    by (simp add: checkAndResetWeeklyData_def w k [symmetric] Let_def falsy_string_def)
qed

text \<open>
  Claim C8. Let \<open>M\<close> be a Monday 00:00 as a local time value. Any two dates whose local
  times lie in the seven days from \<open>M\<close> on (years from 100 on) have the same week start,
  the date object of \<open>M\<close>, and the same computed week key.
\<close>

theorem week_key_stable_within_week:
  assumes "WeekDay M = 1" "TimeWithinDay M = 0"
    and "M \<le> LocalTime tz d" "LocalTime tz d < M + 7 * msPerDay"
    and "M \<le> LocalTime tz d'" "LocalTime tz d' < M + 7 * msPerDay"
    and "100 \<le> getFullYear tz d" "100 \<le> getFullYear tz d'"
  shows "getWeekStartDate tz d = Some (UTC tz M) \<and>
         getWeekStartDate tz d' = Some (UTC tz M) \<and>
         computed_week_key tz d = computed_week_key tz d' \<and>
         computed_week_key tz d \<noteq> None"
  using week_start_day [OF assms(1-4)] week_start_day [OF assms(1,2,5,6)]
  by (simp add: computed_week_key_def getWeekStartDate_eq [OF assms(7)]
      getWeekStartDate_eq [OF assms(8)])

theorem week_key_stable_within_week_witness:
  "WeekDay 1704067200000 = 1 \<and> TimeWithinDay 1704067200000 = 0 \<and>
   getWeekStartDate 330 1704256200000 = Some 1704047400000 \<and>
   getWeekStartDate 330 1704652199999 = Some 1704047400000 \<and>
   computed_week_key 330 1704256200000 = computed_week_key 330 1704652199999"
proof -
  have h: "WeekDay 1704067200000 = 1" "TimeWithinDay 1704067200000 = 0"
    "1704067200000 \<le> LocalTime 330 1704256200000"
    "LocalTime 330 1704256200000 < 1704067200000 + 7 * msPerDay"
    "1704067200000 \<le> LocalTime 330 1704652199999"
    "LocalTime 330 1704652199999 < 1704067200000 + 7 * msPerDay"
    "100 \<le> getFullYear 330 1704256200000" "100 \<le> getFullYear 330 1704652199999"
    by code_simp+
  have u: "UTC 330 1704067200000 = 1704047400000" by code_simp
  show ?thesis
    using h(1,2) u week_key_stable_within_week [OF h] by simp
qed

text \<open>
  Claim C2, as the code has it. In a zone east of UTC the key that the weekly-reset
  check stores is not the calendar key of the Monday. On Wednesday 2024-01-03 10:00 at
  \<open>tz = 330\<close> the week start is Monday 2024-01-01 00:00 local time, whose local date key
  is 2024-01-01; the check computes and stores 2023-12-31, the UTC date of that
  instant.
\<close>

theorem weekly_reset_key_is_utc_date:
  "getWeekStartDate 330 1704256200000 = Some 1704047400000 \<and>
   getDay 330 1704047400000 = 1 \<and>
   getLocalDateKey 330 1704047400000 = ''2024-01-01'' \<and>
   computed_week_key 330 1704256200000 = Some ''2023-12-31'' \<and>
   (case checkAndResetWeeklyData 330 1704256200000 example_sleep of
      Inl e \<Rightarrow> None | Inr s \<Rightarrow> currentWeek s) = Some ''2023-12-31''"
  by code_simp

text \<open>
  Claim C6, as the code has it. The key that the check compares with the marker and
  stores is the one of C2, not the week key of the check time. At \<open>tz = 330\<close> on Wednesday
  2024-01-03 10:00 the week key is 2024-01-01, the local date key of the week start.
  With the marker already equal to it and two logs of that week stored, the check
  empties the logs and sets the marker to 2023-12-31, in the state and in storage.
\<close>

theorem weekly_reset_clears_within_week:
  "getWeekStartDate 330 1704256200000 = Some 1704047400000 \<and>
   getLocalDateKey 330 1704047400000 = ''2024-01-01'' \<and>
   length (sleepLogs example_week) = 2 \<and>
   checkAndResetWeeklyData 330 1704256200000
       (example_week\<lparr>currentWeek := Some ''2024-01-01'',
          stored_currentWeek := Some ''2024-01-01''\<rparr>) =
     Inr (example_week\<lparr>sleepLogs := [], currentWeek := Some ''2023-12-31'',
            stored_sleepLogs := Some [], stored_currentWeek := Some ''2023-12-31''\<rparr>)"
  by code_simp

section \<open>Date keys are local\<close>

lemma six_cases: "a \<le> m \<Longrightarrow> m \<le> a + 5 \<Longrightarrow> m \<in> {a, a + 1, a + 2, a + 3, a + 4, a + 5::int}"
  by auto

lemma month_cases: "0 \<le> m \<Longrightarrow> m \<le> 11 \<Longrightarrow> m \<in> {0, 1, 2, 3, 4, 5, 6, 7, 8, 9, 10, 11::int}"
  using six_cases [of 0 m] six_cases [of 6 m] by (cases "m \<le> 5") auto

lemma month_start_bounds:
  assumes "0 \<le> m" "m \<le> 11" "l = 0 \<or> l = 1"
  shows "0 \<le> month_start l m \<and> month_start l (m + 1) \<le> 365 + l"
  using assms month_cases [OF assms(1,2)] by (auto simp: month_start_def)

lemma MakeDay_in_year:
  assumes "0 \<le> m" "m \<le> 11" "1 \<le> d" "d \<le> DaysInMonth y m"
  shows "MakeDay y m d = DayFromYear y + month_start (if leap_year y then 1 else 0) m + d - 1"
    and "DayFromYear y \<le> MakeDay y m d" and "MakeDay y m d < DayFromYear (y + 1)"
proof -
  have m: "m div 12 = 0" "m mod 12 = m" using assms(1,2) by simp_all
  show e: "MakeDay y m d = DayFromYear y + month_start (if leap_year y then 1 else 0) m + d - 1"
    by (simp add: MakeDay_def Let_def m)
  have b: "0 \<le> month_start (if leap_year y then 1 else 0) m"
    "month_start (if leap_year y then 1 else 0) (m + 1) \<le> 365 + (if leap_year y then 1 else 0)"
    using month_start_bounds [OF assms(1,2), of "if leap_year y then 1 else 0"] by simp_all
  show "DayFromYear y \<le> MakeDay y m d" using e b(1) assms(3) by simp
  have "month_start (if leap_year y then 1 else 0) m + d \<le> 365 + (if leap_year y then 1 else 0)"
    using assms(4) b(2) by (simp add: DaysInMonth_def Let_def)
  then show "MakeDay y m d < DayFromYear (y + 1)"
    using e by (cases "leap_year y") (simp_all add: DayFromYear_Suc DaysInYear_def)
qed

lemma fields_of_MakeDay:
  assumes "0 \<le> m" "m \<le> 11" "1 \<le> d" "d \<le> DaysInMonth y m" "Day t = MakeDay y m d"
  shows "YearFromTime t = y" "MonthFromTime t = m" "DateFromTime t = d"
proof -
  note md = MakeDay_in_year [OF assms(1-4)]
  show y: "YearFromTime t = y"
    unfolding YearFromTime_def assms(5) by (rule YearFromDay_unique [OF md(2,3)])
  define L :: int where "L = (if leap_year y then 1 else 0)"
  have L: "0 \<le> L" "L \<le> 1" by (simp_all add: L_def)
  have l: "InLeapYear t = L"
    by (simp add: InLeapYear_eq y L_def)
  have dwy: "DayWithinYear t = month_start L m + d - 1"
    by (simp add: DayWithinYear_def y assms(5) md(1) L_def)
  have dm: "month_start L m + d \<le> month_start L (m + 1)"
    using assms(4) by (simp add: DaysInMonth_def Let_def L_def)
  have "MonthFromTime t = k" if "m = k" "k \<in> {0, 1, 2, 3, 4, 5, 6, 7, 8, 9, 10, 11}" for k
    using that(2) dm assms(3) L unfolding that(1)
    by (elim insertE emptyE) (simp_all add: MonthFromTime_def Let_def l dwy that(1) month_start_def)
  then show mo: "MonthFromTime t = m"
    using month_cases [OF assms(1,2)] by simp
  show "DateFromTime t = d"
    by (simp add: DateFromTime_def mo l dwy)
qed

lemma MakeTime_in_day:
  assumes "0 \<le> h" "h < 24" "0 \<le> mi" "mi < 60" "0 \<le> sec" "sec < 60" "0 \<le> ms" "ms < 1000"
  shows "0 \<le> MakeTime h mi sec ms \<and> MakeTime h mi sec ms < msPerDay"
  using assms
  by (simp add: MakeTime_def msPerHour_def msPerMinute_def msPerSecond_def msPerDay_def)

lemma Day_MakeDate: "0 \<le> time \<Longrightarrow> time < msPerDay \<Longrightarrow> Day (MakeDate day time) = day"
  by (rule Day_eqI) (simp_all add: MakeDate_def)

lemma str_nat_length: "10 ^ k \<le> n \<Longrightarrow> k < length (str_nat n)"
proof (induction k arbitrary: n)
  case 0
  then show ?case by (cases "n < 10") (simp_all add: str_nat.simps [of n])
next
  case (Suc k)
  then have "10 ^ k \<le> n div 10" by simp
  then have "k < length (str_nat (n div 10))" by (rule Suc.IH)
  moreover have "\<not> n < 10"
  proof -
    have "(10::nat) \<le> 10 ^ Suc k" by simp
    then have "10 \<le> n" using Suc.prems by (rule order_trans)
    then show ?thesis by simp
  qed
  ultimately show ?case by (simp add: str_nat.simps [of n])
qed

lemma iso_year_four_digits:
  assumes "1000 \<le> y" "y \<le> 9999"
  shows "iso_year y = str_int y"
proof -
  have "10 ^ 3 \<le> nat y" using assms(1) by simp
  then have "3 < length (str_nat (nat y))" by (rule str_nat_length)
  then show ?thesis using assms by (simp add: iso_year_def padStart_def str_int_def)
qed

lemma getTimezoneOffset_eq: "getTimezoneOffset tz t = - tz"
  by (simp add: getTimezoneOffset_def LocalTime_def msPerMinute_def)

lemma journal_getLocalDateKey_eq:
  "journal_getLocalDateKey tz date = iso_date (LocalTime tz date)"
  by (simp add: journal_getLocalDateKey_def Let_def getTimezoneOffset_eq toISOString_date
      LocalTime_def msPerMinute_def)

text \<open>
  Claim C3. Take any calendar date with a four-digit year and any time of day, and the
  date object that stands for it as local time in a zone with offset \<open>tz\<close>. Both
  \<open>getLocalDateKey\<close> functions, of sleep.js and of journal.js, give the calendar key of
  that local date: its year, month + 1 and day, padded. The time of day and the zone do
  not enter the key, so 23:59 local time stays on its day whatever the UTC date is.
\<close>

theorem date_key_is_local_calendar_date:
  assumes "1000 \<le> y" "y \<le> 9999" "0 \<le> m" "m \<le> 11" "1 \<le> d" "d \<le> DaysInMonth y m"
    and "0 \<le> h" "h < 24" "0 \<le> mi" "mi < 60" "0 \<le> sec" "sec < 60" "0 \<le> ms" "ms < 1000"
  shows "getLocalDateKey tz (new_Date_time tz y m d h mi sec ms) = CalendarKey y (m + 1) d \<and>
         journal_getLocalDateKey tz (new_Date_time tz y m d h mi sec ms) = CalendarKey y (m + 1) d"
proof -
  define t where "t = new_Date_time tz y m d h mi sec ms"
  have lt: "LocalTime tz t = MakeDate (MakeDay y m d) (MakeTime h mi sec ms)"
    using assms(1) by (simp add: t_def new_Date_time_def Let_def)
  have "Day (LocalTime tz t) = MakeDay y m d"
    unfolding lt using MakeTime_in_day [OF assms(7-14)] by (intro Day_MakeDate) simp_all
  note f = fields_of_MakeDay [OF assms(3-6) this]
  have sleep: "getLocalDateKey tz t = CalendarKey y (m + 1) d"
    by (simp add: getLocalDateKey_def Let_def getFullYear_def getMonth_def getDate_def f
        CalendarKey_def)
  have "journal_getLocalDateKey tz t = CalendarKey y (m + 1) d"
    by (simp add: journal_getLocalDateKey_eq iso_date_def f iso_year_four_digits [OF assms(1,2)]
        CalendarKey_def pad2_def)
  with sleep show ?thesis by (simp add: t_def)
qed

theorem date_key_is_local_calendar_date_witness:
  "DaysInMonth 2024 2 = 31 \<and>
   new_Date_time (- 300) 2024 2 10 23 59 0 0 = 1710133140000 \<and>
   getLocalDateKey (- 300) 1710133140000 = ''2024-03-10'' \<and>
   journal_getLocalDateKey (- 300) 1710133140000 = ''2024-03-10'' \<and>
   iso_date 1710133140000 = ''2024-03-11''"
proof -
  have d: "DaysInMonth 2024 2 = 31" by code_simp
  have t: "new_Date_time (- 300) 2024 2 10 23 59 0 0 = 1710133140000" by code_simp
  have k: "CalendarKey 2024 (2 + 1) 10 = ''2024-03-10''" by code_simp
  have u: "iso_date 1710133140000 = ''2024-03-11''" by code_simp
  show ?thesis
    using d t k u
      date_key_is_local_calendar_date [of 2024 2 10 23 59 0 0 "- 300"]
    by simp
qed

section \<open>The duration of a night\<close>

lemma bit_length_le: "p < 2 ^ n \<Longrightarrow> bit_length p \<le> n"
proof (induction n arbitrary: p)
  case 0
  then show ?case by (simp add: bit_length.simps [of p])
next
  case (Suc n)
  show ?case
  proof (cases "p \<le> 0")
    case True
    then show ?thesis by (simp add: bit_length.simps [of p])
  next
    case False
    have "p div 2 < 2 ^ n" using Suc.prems by simp
    then have "bit_length (p div 2) \<le> n" by (rule Suc.IH)
    with False show ?thesis by (simp add: bit_length.simps [of p])
  qed
qed

lemma bit_length_hour: "bit_length 3600000 = 22"
  by code_simp

lemma round_half_even_error:
  assumes "0 < q"
  shows "2 * (round_half_even a q * q) \<le> 2 * a + q \<and> 2 * a \<le> 2 * (round_half_even a q * q) + q"
proof -
  define d r where "d = a div q" and "r = a mod q"
  have a: "a = d * q + r" and r: "0 \<le> r" "r < q"
    using assms by (simp_all add: d_def r_def)
  have up: "(d + 1) * q = d * q + q" by (simp add: algebra_simps)
  show ?thesis
  proof (cases "q < 2 * r \<or> (2 * r = q \<and> odd d)")
    case True
    then have "round_half_even a q = d + 1"
      by (simp add: round_half_even_def Let_def d_def r_def)
    then show ?thesis using True a r up by auto
  next
    case False
    then have "round_half_even a q = d"
      by (auto simp add: round_half_even_def Let_def d_def r_def)
    then show ?thesis using False a r by auto
  qed
qed

lemma small_multiple:
  fixes K z :: int
  assumes "K * z \<le> 30" "30 < K"
  shows "z \<le> 0"
proof (rule ccontr)
  assume "\<not> z \<le> 0"
  then have "1 \<le> z" by simp
  then have "K * 1 \<le> K * z" using assms(2) by (intro mult_left_mono) simp_all
  with assms show False by simp
qed

lemma duration_tenths_zero: "duration_tenths 0 = 0"
  by (simp add: duration_tenths_def fl_div_def toFixed1_n_def scale_up_def)

lemma duration_tenths_rounds:
  assumes "0 \<le> el" "el < 1440"
  shows "6 * duration_tenths el \<le> el + 3 \<and> el \<le> 6 * duration_tenths el + 3"
proof (cases "el = 0")
  case True
  then show ?thesis by (simp add: duration_tenths_zero)
next
  case False
  define p where "p = el * 60000"
  have p: "0 < p" "p < 2 ^ 27" using assms False by (simp_all add: p_def)
  define e0 where "e0 = int (bit_length p) - int (bit_length 3600000) - 53"
  define e where "e = (if scale_up p (- e0) < 2 ^ 53 * scale_up 3600000 e0 then e0 else e0 + 1)"
  have "bit_length p \<le> 27" using p(2) by (rule bit_length_le)
  then have e: "e \<le> - 47" by (simp add: e_def e0_def bit_length_hour)
  define k where "k = nat (- e)"
  define K :: int where "K = 2 ^ k"
  have "47 \<le> k" using e by (simp add: k_def)
  then have "(2::int) ^ 47 \<le> 2 ^ k" by (intro power_increasing) simp_all
  then have K: "30 < K" by (simp add: K_def)
  have ne: "nat e = 0" using e by simp
  define m where "m = round_half_even (p * K) 3600000"
  have sc: "scale_up p (- e) = p * K" "scale_up 3600000 e = 3600000"
    "scale_up m e = m" "scale_up 1 (- e) = K"
    by (simp_all add: scale_up_def ne k_def K_def)
  have "fl_div p 3600000 = (round_half_even (scale_up p (- e)) (scale_up 3600000 e), e)"
    using p(1) unfolding fl_div_def Let_def e_def e0_def by simp
  then have fl: "fl_div p 3600000 = (m, e)"
    by (simp only: sc m_def)
  define n where "n = (20 * m + K) div (2 * K)"
  have n: "duration_tenths el = n"
    by (simp add: duration_tenths_def p_def [symmetric] fl toFixed1_n_def sc n_def)
  define Kn Kel where "Kn = K * n" and "Kel = K * el"
  have r: "2 * (m * 3600000) \<le> 2 * (p * K) + 3600000"
    "2 * (p * K) \<le> 2 * (m * 3600000) + 3600000"
    using round_half_even_error [of 3600000 "p * K"] by (simp_all add: m_def)
  have pK: "p * K = 60000 * Kel" by (simp add: p_def Kel_def)
  have r': "60 * m \<le> Kel + 30" "Kel \<le> 60 * m + 30"
    using r unfolding pK by simp_all
  have d: "2 * Kn \<le> 20 * m + K" "20 * m + K < 2 * Kn + 2 * K"
    using div_lower [of "2 * K" "20 * m + K"] div_upper [of "2 * K" "20 * m + K"] K
    by (simp_all add: n_def [symmetric] Kn_def)
  have "K * (6 * n - el - 3) = 6 * Kn - Kel - 3 * K"
    by (simp add: Kn_def Kel_def algebra_simps)
  also have "\<dots> \<le> 30" using r'(1) d(1) by simp
  finally have u: "6 * n - el - 3 \<le> 0" using K by (rule small_multiple)
  have "K * (el - 6 * n - 3) = Kel - 6 * Kn - 3 * K"
    by (simp add: Kn_def Kel_def algebra_simps)
  also have "\<dots> \<le> 30" using r'(2) d(2) by simp
  finally have l: "el - 6 * n - 3 \<le> 0" using K by (rule small_multiple)
  from u l show ?thesis by (simp add: n)
qed

lemma digit_char_0: "digit_char 0 = CHR ''0''"
  by (simp add: digit_char_def decimal_digits_def)

lemma str_nat_two_digits:
  assumes "n < 100"
  shows "padStart 2 CHR ''0'' (str_nat n) = [digit_char (n div 10), digit_char (n mod 10)]"
proof (cases "n < 10")
  case True
  then show ?thesis by (simp add: str_nat.simps [of n] padStart_def digit_char_0)
next
  case False
  then have "n div 10 < 10" using assms by simp
  then show ?thesis using False
    by (simp add: str_nat.simps [of n] str_nat.simps [of "n div 10"] padStart_def)
qed

lemma digits_val_two:
  "a < 10 \<Longrightarrow> b < 10 \<Longrightarrow> digits_val 0 [digit_char a, digit_char b] = Some (10 * a + b)"
  by (simp add: digit_val_digit_char)

lemma digit_val_literals:
  "digit_val CHR ''0'' = Some 0" "digit_val CHR ''1'' = Some 1" "digit_val CHR ''2'' = Some 2"
  by (simp_all add: digit_val_def decimal_digits_def)

lemma timeString_chars:
  assumes "0 \<le> h" "h < 24" "0 \<le> m" "m < 60"
  shows "timeString h m =
           [digit_char (nat h div 10), digit_char (nat h mod 10), CHR '':'',
            digit_char (nat m div 10), digit_char (nat m mod 10)]"
  using assms by (simp add: timeString_def str_int_nonneg str_nat_two_digits)

lemma MakeDay_2000: "MakeDay 2000 0 1 = 10957"
  by (simp add: MakeDay_def DayFromYear_def month_start_def Let_def)

lemma digits_val_date_literals:
  "digits_val 0 ''2000'' = Some 2000" "digits_val 0 ''01'' = Some 1" "digits_val 0 ''00'' = Some 0"
  by (simp_all add: digit_val_literals)

lemma Date_parse_clock:
  assumes "0 \<le> h" "h < 24" "0 \<le> m" "m < 60"
  shows "Date_parse tz (''2000-01-01T'' @ timeString h m @ '':00'') =
           Some (UTC tz (MakeDate 10957 (MakeTime h m 0 0)))"
proof -
  have hd: "nat h div 10 < 10" "nat h mod 10 < 10" "nat m div 10 < 10" "nat m mod 10 < 10"
    using assms by simp_all
  define hh mm where "hh = 10 * (nat h div 10) + nat h mod 10"
    and "mm = 10 * (nat m div 10) + nat m mod 10"
  have hv: "int hh = h" "int mm = m" "hh < 24" "mm < 60"
    using assms by (simp_all add: hh_def mm_def)
  have dv: "digits_val 0 [digit_char (nat h div 10), digit_char (nat h mod 10)] = Some hh"
    "digits_val 0 [digit_char (nat m div 10), digit_char (nat m mod 10)] = Some mm"
    unfolding hh_def mm_def by (rule digits_val_two [OF hd(1,2)], rule digits_val_two [OF hd(3,4)])
  show ?thesis
    unfolding timeString_chars [OF assms] Date_parse_def
    by (simp add: dv digits_val_date_literals hv MakeDay_2000 del: digits_val.simps)
qed

lemma elapsed_minutes_range:
  assumes "0 \<le> s" "s < 1440" "0 \<le> w" "w < 1440"
  shows "0 \<le> elapsed_minutes s w \<and> elapsed_minutes s w < 1440"
  using assms by (simp add: elapsed_minutes_def)

lemma calculateDuration_clock:
  assumes "0 \<le> hs" "hs < 24" "0 \<le> ms" "ms < 60" "0 \<le> hw" "hw < 24" "0 \<le> mw" "mw < 60"
  shows "calculateDuration tz (timeString hs ms) (timeString hw mw) =
           fixed1_string (duration_tenths (elapsed_minutes (60 * hs + ms) (60 * hw + mw)))"
proof -
  define sl where "sl = UTC tz (MakeDate 10957 (MakeTime hs ms 0 0))"
  define wk where "wk = UTC tz (MakeDate 10957 (MakeTime hw mw 0 0))"
  define el where "el = elapsed_minutes (60 * hs + ms) (60 * hw + mw)"
  have "hw * 3600000 + mw * 60000 = 60000 * (60 * hw + mw)"
    "hs * 3600000 + ms * 60000 = 60000 * (60 * hs + ms)" by simp_all
  then have "hw * 3600000 + mw * 60000 < hs * 3600000 + ms * 60000 \<longleftrightarrow>
      60 * hw + mw < 60 * hs + ms"
    by (simp only: mult_less_cancel_left_pos)
  then have lt: "wk < sl \<longleftrightarrow> 60 * hw + mw < 60 * hs + ms"
    by (simp add: sl_def wk_def UTC_def MakeDate_def MakeTime_def msPerHour_def msPerMinute_def)
  have v: "sl = 946684800000 + (60 * hs + ms) * 60000 - tz * 60000"
    "wk = 946684800000 + (60 * hw + mw) * 60000 - tz * 60000"
    by (simp_all add: sl_def wk_def UTC_def MakeDate_def MakeTime_def msPerHour_def
        msPerMinute_def msPerDay_def)
  have d1: "setDate tz wk (getDate tz wk + 1) - sl = el * 60000" if "wk < sl"
    using that lt by (simp add: setDate_getDate el_def elapsed_minutes_def v msPerDay_def)
  have d2: "wk - sl = el * 60000" if "\<not> wk < sl"
    using that lt by (simp add: el_def elapsed_minutes_def v)
  have "0 \<le> el"
    using elapsed_minutes_range [of "60 * hs + ms" "60 * hw + mw"] assms by (simp add: el_def)
  then have nn: "\<not> el * 60000 < 0" by simp
  have n1: "\<not> setDate tz wk (getDate tz wk + 1) < sl" if "wk < sl"
    using d1 [OF that] nn by linarith
  show ?thesis
    unfolding calculateDuration_def Date_parse_clock [OF assms(1-4)] Date_parse_clock [OF assms(5-8)]
      sl_def [symmetric] wk_def [symmetric] el_def [symmetric]
    by (cases "wk < sl") (simp_all add: Let_def d1 d2 n1 toFixed1_def duration_tenths_def)
qed

lemma fixed1_string_nat:
  "fixed1_string (int k) = str_nat (k div 10) @ ''.'' @ [digit_char (k mod 10)]"
proof (cases "k < 10")
  case True
  then show ?thesis
    by (simp add: fixed1_string_def str_int_def str_nat.simps [of k] str_nat.simps [of 0]
        padStart_def digit_char_0 Let_def)
next
  case False
  then have "10 ^ 0 \<le> k div 10" by simp
  then have "0 < length (str_nat (k div 10))" by (rule str_nat_length)
  then show ?thesis using False
    by (simp add: fixed1_string_def str_int_def str_nat.simps [of k] padStart_def Let_def
        Suc_le_eq)
qed

lemma fixed1_string_render:
  assumes "0 \<le> n"
  shows "fixed1_string n = str_int (n div 10) @ ''.'' @ [digit_char (nat (n mod 10))]"
proof -
  from assms obtain k where k: "n = int k" by (rule nonneg_int_cases)
  have "int k div 10 = int (k div 10)" "int k mod 10 = int (k mod 10)"
    by (simp_all add: zdiv_int zmod_int)
  then show ?thesis
    unfolding k by (simp add: fixed1_string_nat str_int_def)
qed

lemma duration_tenths_nonneg: "0 \<le> el \<Longrightarrow> el < 1440 \<Longrightarrow> 0 \<le> duration_tenths el"
  using duration_tenths_rounds [of el] by simp

lemma clock_minutes:
  fixes h m :: int
  assumes "0 \<le> h" "h < 24" "0 \<le> m" "m < 60"
  shows "0 \<le> 60 * h + m \<and> 60 * h + m < 1440"
  using assms by simp

text \<open>
  Claim C1, amended. Equal sleep and wake times, as the time picker writes them (hour
  0..23 and minute 0..59, two digits each), give the duration \<^verbatim>\<open>0.0\<close>: the wake time moves
  to the next day only when it is before the sleep time.
\<close>

theorem calculateDuration_equal_times:
  assumes "0 \<le> h" "h < 24" "0 \<le> m" "m < 60"
  shows "calculateDuration tz (timeString h m) (timeString h m) = ''0.0''"
proof -
  have "fixed1_string 0 = ''0.0''" by code_simp
  then show ?thesis
    by (simp add: calculateDuration_clock [OF assms assms] elapsed_minutes_def
        duration_tenths_zero)
qed

theorem calculateDuration_equal_times_witness:
  "timeString 23 0 = ''23:00'' \<and> calculateDuration 0 ''23:00'' ''23:00'' = ''0.0''"
proof -
  have t: "timeString 23 0 = ''23:00''" by code_simp
  show ?thesis using t calculateDuration_equal_times [of 23 0 0] by simp
qed

text \<open>
  Claim C1 as stated fails: for \<^verbatim>\<open>23:00\<close> and \<^verbatim>\<open>23:00\<close> the result is \<^verbatim>\<open>0.0\<close>, not \<^verbatim>\<open>24.0\<close>.
\<close>

theorem calculateDuration_equal_times_counterexample:
  "calculateDuration 0 ''23:00'' ''23:00'' = ''0.0'' \<and>
   calculateDuration 0 ''23:00'' ''23:00'' \<noteq> ''24.0''"
  by code_simp

text \<open>
  Claim C4. For every pair of clock times of the picker, \<open>calculateDuration\<close> returns the
  one-decimal rendering of a number of tenths \<open>n\<close> (its integer part, a point, its last
  digit) such that \<open>n / 10\<close> hours differs from the elapsed time by at most 0.05 hours,
  that is \<open>\<bar>6 * n - el\<bar> \<le> 3\<close> for the elapsed minutes \<open>el\<close>; the elapsed time takes the
  wake time on the next day when it is before the sleep time and on the same day
  otherwise. In every zone 22:00 to 06:30 gives \<^verbatim>\<open>8.5\<close> and 09:00 to 17:00 gives \<^verbatim>\<open>8.0\<close>.
\<close>

theorem calculateDuration_rounded_elapsed_hours:
  assumes "0 \<le> hs" "hs < 24" "0 \<le> ms" "ms < 60" "0 \<le> hw" "hw < 24" "0 \<le> mw" "mw < 60"
  shows "calculateDuration tz (timeString hs ms) (timeString hw mw) =
           fixed1_string (duration_tenths (elapsed_minutes (60 * hs + ms) (60 * hw + mw))) \<and>
         fixed1_string (duration_tenths (elapsed_minutes (60 * hs + ms) (60 * hw + mw))) =
           str_int (duration_tenths (elapsed_minutes (60 * hs + ms) (60 * hw + mw)) div 10) @ ''.'' @
           [digit_char (nat (duration_tenths (elapsed_minutes (60 * hs + ms) (60 * hw + mw)) mod 10))] \<and>
         \<bar>6 * duration_tenths (elapsed_minutes (60 * hs + ms) (60 * hw + mw)) -
            elapsed_minutes (60 * hs + ms) (60 * hw + mw)\<bar> \<le> 3 \<and>
         calculateDuration tz ''22:00'' ''06:30'' = ''8.5'' \<and>
         calculateDuration tz ''09:00'' ''17:00'' = ''8.0''"
proof -
  define el where "el = elapsed_minutes (60 * hs + ms) (60 * hw + mw)"
  have r: "0 \<le> el" "el < 1440"
    using elapsed_minutes_range [of "60 * hs + ms" "60 * hw + mw"]
      clock_minutes [OF assms(1-4)] clock_minutes [OF assms(5-8)]
    by (simp_all add: el_def)
  have 1: "calculateDuration tz (timeString hs ms) (timeString hw mw) =
      fixed1_string (duration_tenths el)"
    unfolding el_def by (rule calculateDuration_clock [OF assms])
  have 2: "fixed1_string (duration_tenths el) =
      str_int (duration_tenths el div 10) @ ''.'' @ [digit_char (nat (duration_tenths el mod 10))]"
    by (rule fixed1_string_render [OF duration_tenths_nonneg [OF r]])
  have 3: "\<bar>6 * duration_tenths el - el\<bar> \<le> 3"
    using duration_tenths_rounds [OF r] by (simp add: abs_le_iff)
  have t: "timeString 22 0 = ''22:00''" "timeString 6 30 = ''06:30''"
    "timeString 9 0 = ''09:00''" "timeString 17 0 = ''17:00''"
    by code_simp+
  have e: "fixed1_string (duration_tenths (elapsed_minutes (60 * 22 + 0) (60 * 6 + 30))) = ''8.5''"
    "fixed1_string (duration_tenths (elapsed_minutes (60 * 9 + 0) (60 * 17 + 0))) = ''8.0''"
    by code_simp+
  have 4: "calculateDuration tz ''22:00'' ''06:30'' = ''8.5''"
    using calculateDuration_clock [of 22 0 6 30 tz] unfolding t e by simp
  have 5: "calculateDuration tz ''09:00'' ''17:00'' = ''8.0''"
    using calculateDuration_clock [of 9 0 17 0 tz] unfolding t e by simp
  show ?thesis using 1 2 3 4 5 unfolding el_def by (intro conjI)
qed

theorem calculateDuration_rounded_elapsed_hours_witness:
  "timeString 0 0 = ''00:00'' \<and> timeString 0 9 = ''00:09'' \<and>
   elapsed_minutes (60 * 0 + 0) (60 * 0 + 9) = 9 \<and>
   duration_tenths 9 = 1 \<and>
   calculateDuration 330 ''00:00'' ''00:09'' = ''0.1'' \<and>
   calculateDuration 330 ''22:00'' ''06:30'' = ''8.5'' \<and>
   calculateDuration 330 ''09:00'' ''17:00'' = ''8.0''"
proof -
  have t: "timeString 0 0 = ''00:00''" "timeString 0 9 = ''00:09''" by code_simp+
  have e: "elapsed_minutes (60 * 0 + 0) (60 * 0 + 9) = 9" by code_simp
  have d: "duration_tenths 9 = 1" by code_simp
  have f: "fixed1_string 1 = ''0.1''" by code_simp
  have h: "(0::int) \<le> 0" "(0::int) < 24" "(0::int) < 60" "(0::int) \<le> 9" "(9::int) < 60"
    by simp_all
  note r = calculateDuration_rounded_elapsed_hours [OF h(1) h(2) h(1) h(3) h(1) h(2) h(4) h(5), of 330]
  from r have "calculateDuration 330 (timeString 0 0) (timeString 0 9) =
      fixed1_string (duration_tenths (elapsed_minutes (60 * 0 + 0) (60 * 0 + 9)))"
    by (rule conjunct1)
  then have 1: "calculateDuration 330 ''00:00'' ''00:09'' = ''0.1''"
    unfolding t e d f .
  from r have 2: "calculateDuration 330 ''22:00'' ''06:30'' = ''8.5''"
    and 3: "calculateDuration 330 ''09:00'' ''17:00'' = ''8.0''"
    by blast+
  show ?thesis by (intro conjI t e d 1 2 3)
qed

section \<open>Saving a sleep log\<close>

lemma findIndex_Some:
  "findIndex P xs = Some i \<Longrightarrow> i < length xs \<and> P (xs ! i) \<and> (\<forall>j<i. \<not> P (xs ! j))"
proof (induction xs arbitrary: i)
  case Nil
  then show ?case by simp
next
  case (Cons x xs)
  show ?case
  proof (cases "P x")
    case True
    with Cons.prems show ?thesis by simp
  next
    case False
    with Cons.prems obtain k where k: "findIndex P xs = Some k" "i = Suc k" by auto
    from Cons.IH [OF k(1)] False show ?thesis
      by (auto simp: k(2) nth_Cons split: nat.splits)
  qed
qed

lemma findIndex_None: "findIndex P xs = None \<longleftrightarrow> (\<forall>x\<in>set xs. \<not> P x)"
  by (induction xs) auto

lemma distinct_keys_update:
  assumes "distinct (map f xs)" "i < length xs" "f (xs ! i) = f v"
  shows "distinct (map f (xs[i := v]))"
proof -
  have "map f (xs[i := v]) = (map f xs)[i := f v]" by (simp add: map_update)
  also have "\<dots> = map f xs" using assms(2,3) by (simp add: list_update_same_conv)
  finally show ?thesis using assms(1) by simp
qed

lemma saveSleepLog_existing:
  assumes "sleepTime \<noteq> []" "wakeTime \<noteq> []"
    and "getLocalDateKey tz now \<in> set (map log_date (sleepLogs s))"
  shows "\<exists>i<length (sleepLogs s).
           log_date (sleepLogs s ! i) = getLocalDateKey tz now \<and>
           (\<forall>j<i. log_date (sleepLogs s ! j) \<noteq> getLocalDateKey tz now) \<and>
           sleepLogs (saveSleepLog tz now sleepTime wakeTime s) =
             (sleepLogs s)[i := new_log tz now sleepTime wakeTime]"
proof -
  have "findIndex (\<lambda>l. log_date l = getLocalDateKey tz now) (sleepLogs s) \<noteq> None"
    using assms(3) by (auto simp: findIndex_None)
  then obtain i where i: "findIndex (\<lambda>l. log_date l = getLocalDateKey tz now) (sleepLogs s) = Some i"
    by auto
  from findIndex_Some [OF i] i assms(1,2) show ?thesis
    by (auto simp: saveSleepLog_def Let_def new_log_def)
qed

lemma saveSleepLog_distinct:
  assumes "distinct (map log_date (sleepLogs s))"
  shows "distinct (map log_date (sleepLogs (saveSleepLog tz now sleepTime wakeTime s)))"
proof (cases "sleepTime = [] \<or> wakeTime = []")
  case True
  then show ?thesis using assms by (auto simp: saveSleepLog_def)
next
  case False
  show ?thesis
  proof (cases "findIndex (\<lambda>l. log_date l = getLocalDateKey tz now) (sleepLogs s)")
    case None
    then have "getLocalDateKey tz now \<notin> set (map log_date (sleepLogs s))"
      by (auto simp: findIndex_None)
    then show ?thesis using assms False None by (simp add: saveSleepLog_def Let_def)
  next
    case (Some i)
    from findIndex_Some [OF Some] have "i < length (sleepLogs s)"
      "log_date (sleepLogs s ! i) = getLocalDateKey tz now" by simp_all
    then show ?thesis using assms False Some
      by (simp add: saveSleepLog_def Let_def distinct_keys_update)
  qed
qed

lemma saveSleepLog_has_key:
  assumes "sleepTime \<noteq> []" "wakeTime \<noteq> []"
  shows "getLocalDateKey tz now \<in> set (map log_date (sleepLogs (saveSleepLog tz now sleepTime wakeTime s)))"
proof (cases "findIndex (\<lambda>l. log_date l = getLocalDateKey tz now) (sleepLogs s)")
  case None
  then show ?thesis using assms by (simp add: saveSleepLog_def Let_def)
next
  case (Some i)
  from findIndex_Some [OF Some] have "i < length (sleepLogs s)" by simp
  then show ?thesis using assms Some
    by (auto simp: saveSleepLog_def Let_def set_update_memI map_update)
qed

text \<open>
  Claim C7. When a log with today's date key is already stored, \<open>saveSleepLog\<close> (with both
  times entered) replaces the first such log in place and the number of logs stays the
  same. Any save keeps the date keys of the stored logs pairwise distinct, and after a
  save with both times entered today's key is among them and \<^verbatim>\<open>localStorage\<close> holds the
  new list.
\<close>

theorem saveSleepLog_one_record_per_key:
  "(sleepTime \<noteq> [] \<and> wakeTime \<noteq> [] \<and>
      getLocalDateKey tz now \<in> set (map log_date (sleepLogs s)) \<longrightarrow>
      length (sleepLogs (saveSleepLog tz now sleepTime wakeTime s)) = length (sleepLogs s) \<and>
      (\<exists>i<length (sleepLogs s).
         log_date (sleepLogs s ! i) = getLocalDateKey tz now \<and>
         (\<forall>j<i. log_date (sleepLogs s ! j) \<noteq> getLocalDateKey tz now) \<and>
         sleepLogs (saveSleepLog tz now sleepTime wakeTime s) =
           (sleepLogs s)[i := new_log tz now sleepTime wakeTime])) \<and>
   (distinct (map log_date (sleepLogs s)) \<longrightarrow>
      distinct (map log_date (sleepLogs (saveSleepLog tz now sleepTime wakeTime s)))) \<and>
   (sleepTime \<noteq> [] \<and> wakeTime \<noteq> [] \<longrightarrow>
      getLocalDateKey tz now \<in>
        set (map log_date (sleepLogs (saveSleepLog tz now sleepTime wakeTime s))) \<and>
      stored_sleepLogs (saveSleepLog tz now sleepTime wakeTime s) =
        Some (sleepLogs (saveSleepLog tz now sleepTime wakeTime s)))"
proof (intro conjI impI)
  assume a: "sleepTime \<noteq> [] \<and> wakeTime \<noteq> [] \<and>
      getLocalDateKey tz now \<in> set (map log_date (sleepLogs s))"
  then have ex: "\<exists>i<length (sleepLogs s).
         log_date (sleepLogs s ! i) = getLocalDateKey tz now \<and>
         (\<forall>j<i. log_date (sleepLogs s ! j) \<noteq> getLocalDateKey tz now) \<and>
         sleepLogs (saveSleepLog tz now sleepTime wakeTime s) =
           (sleepLogs s)[i := new_log tz now sleepTime wakeTime]"
    by (intro saveSleepLog_existing) simp_all
  then show "\<exists>i<length (sleepLogs s).
         log_date (sleepLogs s ! i) = getLocalDateKey tz now \<and>
         (\<forall>j<i. log_date (sleepLogs s ! j) \<noteq> getLocalDateKey tz now) \<and>
         sleepLogs (saveSleepLog tz now sleepTime wakeTime s) =
           (sleepLogs s)[i := new_log tz now sleepTime wakeTime]" .
  from ex obtain i where "sleepLogs (saveSleepLog tz now sleepTime wakeTime s) =
           (sleepLogs s)[i := new_log tz now sleepTime wakeTime]" by blast
  then show "length (sleepLogs (saveSleepLog tz now sleepTime wakeTime s)) = length (sleepLogs s)"
    by simp
next
  assume "distinct (map log_date (sleepLogs s))"
  then show "distinct (map log_date (sleepLogs (saveSleepLog tz now sleepTime wakeTime s)))"
    by (rule saveSleepLog_distinct)
next
  assume a: "sleepTime \<noteq> [] \<and> wakeTime \<noteq> []"
  then show "getLocalDateKey tz now \<in>
        set (map log_date (sleepLogs (saveSleepLog tz now sleepTime wakeTime s)))"
    by (intro saveSleepLog_has_key) simp_all
  from a show "stored_sleepLogs (saveSleepLog tz now sleepTime wakeTime s) =
        Some (sleepLogs (saveSleepLog tz now sleepTime wakeTime s))"
    by (simp add: saveSleepLog_def Let_def)
qed

theorem saveSleepLog_one_record_per_key_witness:
  "getLocalDateKey 330 1704256200000 \<in> set (map log_date (sleepLogs example_week)) \<and>
   distinct (map log_date (sleepLogs example_week)) \<and>
   length (sleepLogs (saveSleepLog 330 1704256200000 ''23:00'' ''07:00'' example_week)) = 2 \<and>
   distinct (map log_date
     (sleepLogs (saveSleepLog 330 1704256200000 ''23:00'' ''07:00'' example_week))) \<and>
   sleepLogs (saveSleepLog 330 1704256200000 ''23:00'' ''07:00'' example_week) =
     [\<lparr>log_date = ''2024-01-02'', log_sleepTime = ''22:00'', log_wakeTime = ''06:30'',
       log_duration = ''8.5''\<rparr>,
      \<lparr>log_date = ''2024-01-03'', log_sleepTime = ''23:00'', log_wakeTime = ''07:00'',
       log_duration = ''8.0''\<rparr>]"
proof -
  have k: "getLocalDateKey 330 1704256200000 \<in> set (map log_date (sleepLogs example_week))"
    by code_simp
  have d: "distinct (map log_date (sleepLogs example_week))" by code_simp
  have l: "length (sleepLogs example_week) = 2" by code_simp
  have r: "sleepLogs (saveSleepLog 330 1704256200000 ''23:00'' ''07:00'' example_week) =
     [\<lparr>log_date = ''2024-01-02'', log_sleepTime = ''22:00'', log_wakeTime = ''06:30'',
       log_duration = ''8.5''\<rparr>,
      \<lparr>log_date = ''2024-01-03'', log_sleepTime = ''23:00'', log_wakeTime = ''07:00'',
       log_duration = ''8.0''\<rparr>]"
    by code_simp
  show ?thesis
    using k d l r
      saveSleepLog_one_record_per_key [of "''23:00''" "''07:00''" 330 1704256200000 example_week]
    by simp
qed

section \<open>The slots of the week\<close>

lemma week_loop_eq: "week_loop body i acc = acc @ map body [i..<7]"
proof (induction body i acc rule: week_loop.induct)
  case (1 body i last7Days)
  show ?case
  proof (cases "i < 7")
    case True
    then have "[i..<7] = i # [Suc i..<7]" by (simp add: upt_conv_Cons)
    with True 1 show ?thesis by (simp add: week_loop.simps [of body i])
  next
    case False
    then show ?thesis by (simp add: week_loop.simps [of body i])
  qed
qed

lemma upt_7: "[0..<7] = [0, 1, 2, 3, 4, 5, 6]"
  by (simp add: upt_rec)

lemma getLast7DaysData_eq:
  "getLast7DaysData parseFloat tz now s =
     (map (week_slot parseFloat tz (getWeekStartDate tz now) (sleepLogs s)) [0..<7], s)"
  by (simp add: getLast7DaysData_def week_loop_eq)

lemma slot_day_week_slot: "slot_day (week_slot parseFloat tz ws logs i) = daysInWeek ! i"
  by (simp add: week_slot_def Let_def)

lemma week_slot_Some:
  "week_slot parseFloat tz (Some ws) logs i =
     \<lparr>slot_date = getLocalDateKey tz (ws + int i * msPerDay),
      slot_duration =
        (case find (\<lambda>l. log_date l = getLocalDateKey tz (ws + int i * msPerDay)) logs of
           None \<Rightarrow> 0 | Some l \<Rightarrow> parseFloat (log_duration l)),
      slot_day = daysInWeek ! i\<rparr>"
  by (simp add: week_slot_def Let_def setDate_getDate getLocalDateKey_def)

lemma week_start_is_monday:
  assumes "100 \<le> getFullYear tz now"
  shows "\<exists>ws. getWeekStartDate tz now = Some ws \<and> getDay tz ws = 1"
proof -
  define q where "q = Day (LocalTime tz now)"
  define w where "w = (q + 4) mod 7"
  define d where "d = (if w = 0 then 6 else w - 1)"
  have w: "0 \<le> w" "w < 7" by (simp_all add: w_def)
  have "(q - d + 4) mod 7 = (w - d) mod 7"
    using mod_diff_left_eq [of "q + 4" 7 d] by (simp add: w_def algebra_simps)
  also have "\<dots> = 1" using w by (simp add: d_def)
  finally have m: "(q - d + 4) mod 7 = 1" .
  have ws: "getWeekStartDate tz now = Some (UTC tz ((q - d) * msPerDay))"
    by (simp add: getWeekStartDate_eq [OF assms] q_def d_def w_def WeekDay_def)
  have "getDay tz (UTC tz ((q - d) * msPerDay)) = (q - d + 4) mod 7"
    by (simp add: getDay_def WeekDay_of_day)
  with m ws show ?thesis by simp
qed

text \<open>
  Claim C5. For every store, clock and \<^verbatim>\<open>parseFloat\<close>, \<open>getLast7DaysData\<close> returns seven
  slots whose labels are Mon, Tue, Wed, Thu, Fri, Sat, Sun in this order; it leaves the
  state as it was, and run again on that state it returns the same. With week start
  \<open>ws\<close>, slot \<open>i\<close> has the local date key of \<open>ws\<close> plus \<open>i\<close> days, and as duration the parsed
  duration of the first stored log with that key, or 0 when there is none. In a year
  from 100 on the week start exists and is a Monday.
\<close>

theorem getLast7DaysData_week_slots:
  "length (fst (getLast7DaysData parseFloat tz now s)) = 7 \<and>
   map slot_day (fst (getLast7DaysData parseFloat tz now s)) =
     [''Mon'', ''Tue'', ''Wed'', ''Thu'', ''Fri'', ''Sat'', ''Sun''] \<and>
   snd (getLast7DaysData parseFloat tz now s) = s \<and>
   getLast7DaysData parseFloat tz now (snd (getLast7DaysData parseFloat tz now s)) =
     getLast7DaysData parseFloat tz now s \<and>
   (\<forall>ws i. getWeekStartDate tz now = Some ws \<and> i < 7 \<longrightarrow>
      slot_date (fst (getLast7DaysData parseFloat tz now s) ! i) =
        getLocalDateKey tz (ws + int i * msPerDay) \<and>
      slot_duration (fst (getLast7DaysData parseFloat tz now s) ! i) =
        (case find (\<lambda>l. log_date l = getLocalDateKey tz (ws + int i * msPerDay)) (sleepLogs s) of
           None \<Rightarrow> 0 | Some l \<Rightarrow> parseFloat (log_duration l))) \<and>
   (100 \<le> getFullYear tz now \<longrightarrow>
      (\<exists>ws. getWeekStartDate tz now = Some ws \<and> getDay tz ws = 1))"
proof (intro conjI allI impI)
  show "length (fst (getLast7DaysData parseFloat tz now s)) = 7"
    by (simp add: getLast7DaysData_eq)
  show "map slot_day (fst (getLast7DaysData parseFloat tz now s)) =
     [''Mon'', ''Tue'', ''Wed'', ''Thu'', ''Fri'', ''Sat'', ''Sun'']"
    by (simp add: getLast7DaysData_eq upt_7 slot_day_week_slot daysInWeek_def)
  show "snd (getLast7DaysData parseFloat tz now s) = s"
    by (simp add: getLast7DaysData_eq)
  then show "getLast7DaysData parseFloat tz now (snd (getLast7DaysData parseFloat tz now s)) =
     getLast7DaysData parseFloat tz now s"
    by simp
next
  fix ws :: int and i :: nat
  assume a: "getWeekStartDate tz now = Some ws \<and> i < 7"
  then have "fst (getLast7DaysData parseFloat tz now s) ! i =
      week_slot parseFloat tz (Some ws) (sleepLogs s) i"
    by (simp add: getLast7DaysData_eq)
  then show "slot_date (fst (getLast7DaysData parseFloat tz now s) ! i) =
        getLocalDateKey tz (ws + int i * msPerDay)"
    and "slot_duration (fst (getLast7DaysData parseFloat tz now s) ! i) =
        (case find (\<lambda>l. log_date l = getLocalDateKey tz (ws + int i * msPerDay)) (sleepLogs s) of
           None \<Rightarrow> 0 | Some l \<Rightarrow> parseFloat (log_duration l))"
    by (simp_all add: week_slot_Some)
next
  assume "100 \<le> getFullYear tz now"
  then show "\<exists>ws. getWeekStartDate tz now = Some ws \<and> getDay tz ws = 1"
    by (rule week_start_is_monday)
qed

theorem getLast7DaysData_week_slots_witness:
  "100 \<le> getFullYear 330 1704256200000 \<and>
   getWeekStartDate 330 1704256200000 = Some 1704047400000 \<and>
   getDay 330 1704047400000 = 1 \<and>
   fst (getLast7DaysData tenths 330 1704256200000 example_week) =
     [\<lparr>slot_date = ''2024-01-01'', slot_duration = 0, slot_day = ''Mon''\<rparr>,
      \<lparr>slot_date = ''2024-01-02'', slot_duration = 85, slot_day = ''Tue''\<rparr>,
      \<lparr>slot_date = ''2024-01-03'', slot_duration = 50, slot_day = ''Wed''\<rparr>,
      \<lparr>slot_date = ''2024-01-04'', slot_duration = 0, slot_day = ''Thu''\<rparr>,
      \<lparr>slot_date = ''2024-01-05'', slot_duration = 0, slot_day = ''Fri''\<rparr>,
      \<lparr>slot_date = ''2024-01-06'', slot_duration = 0, slot_day = ''Sat''\<rparr>,
      \<lparr>slot_date = ''2024-01-07'', slot_duration = 0, slot_day = ''Sun''\<rparr>] \<and>
   snd (getLast7DaysData tenths 330 1704256200000 example_week) = example_week \<and>
   slot_date (fst (getLast7DaysData tenths 330 1704256200000 example_week) ! 2) =
     getLocalDateKey 330 (1704047400000 + int 2 * msPerDay)"
proof -
  have w: "getWeekStartDate 330 1704256200000 = Some 1704047400000" by code_simp
  have m: "getDay 330 1704047400000 = 1" by code_simp
  have r: "fst (getLast7DaysData tenths 330 1704256200000 example_week) =
     [\<lparr>slot_date = ''2024-01-01'', slot_duration = 0, slot_day = ''Mon''\<rparr>,
      \<lparr>slot_date = ''2024-01-02'', slot_duration = 85, slot_day = ''Tue''\<rparr>,
      \<lparr>slot_date = ''2024-01-03'', slot_duration = 50, slot_day = ''Wed''\<rparr>,
      \<lparr>slot_date = ''2024-01-04'', slot_duration = 0, slot_day = ''Thu''\<rparr>,
      \<lparr>slot_date = ''2024-01-05'', slot_duration = 0, slot_day = ''Fri''\<rparr>,
      \<lparr>slot_date = ''2024-01-06'', slot_duration = 0, slot_day = ''Sat''\<rparr>,
      \<lparr>slot_date = ''2024-01-07'', slot_duration = 0, slot_day = ''Sun''\<rparr>]"
    by code_simp
  note t = getLast7DaysData_week_slots [of tenths 330 1704256200000 example_week]
  from t have s: "snd (getLast7DaysData tenths 330 1704256200000 example_week) = example_week"
    by blast
  have "getWeekStartDate 330 1704256200000 = Some 1704047400000 \<and> (2::nat) < 7"
    using w by simp
  with t have d: "slot_date (fst (getLast7DaysData tenths 330 1704256200000 example_week) ! 2) =
     getLocalDateKey 330 (1704047400000 + int 2 * msPerDay)"
    by blast
  have y: "100 \<le> getFullYear 330 1704256200000" by code_simp
  show ?thesis by (intro conjI y w m r s d)
qed

section \<open>Loading stored state\<close>

lemma loads_of_json:
  "init_sleepLogs (JSONText v) = Inr (if truthy (Some v) then Some v else Some (JArr []))"
  "init_currentWeek (JSONText v) = Inr (if truthy (Some v) then Some v else Some JNull)"
  by (simp_all add: init_sleepLogs_def init_currentWeek_def JSON_parse_def or_else_def)

lemma loadFromStorage_falsy:
  "\<not> truthy (Some v) \<Longrightarrow> loadFromStorage (JSONText v) state = Inr state"
  by (simp add: loadFromStorage_def JSON_parse_def)

lemma loadFromStorage_truthy:
  assumes "truthy (Some v)"
  shows "\<exists>state'. loadFromStorage (JSONText v) state = Inr state' \<and>
           ld_todos state' = or_else (opt_prop (get_prop v ''tasks'') ''todos'') (Some (JArr [])) \<and>
           ld_dailies state' = or_else (opt_prop (get_prop v ''tasks'') ''dailies'') (Some (JArr [])) \<and>
           ld_habits state' = or_else (opt_prop (get_prop v ''tasks'') ''habits'') (Some (JArr []))"
  using assms by (simp add: loadFromStorage_def JSON_parse_def)

text \<open>
  Claim C9 fails for stored text that is not JSON: each of the three loads throws the
  \<^verbatim>\<open>SyntaxError\<close> of \<^verbatim>\<open>JSON.parse\<close>. It also fails for stored JSON of another shape: a number
  stored as the sleep logs is loaded as it is, and a task-list object whose \<^verbatim>\<open>todos\<close> is a
  number is loaded with that number (and with xp 45 for a stored xp of 0).
\<close>

theorem loading_malformed_counterexample:
  "init_sleepLogs NotJSON = Inl SyntaxError \<and>
   init_currentWeek NotJSON = Inl SyntaxError \<and>
   loadFromStorage NotJSON initial_state = Inl SyntaxError \<and>
   init_sleepLogs (JSONText (JNum 5)) = Inr (Some (JNum 5)) \<and>
   loadFromStorage (JSONText example_stored) initial_state =
     Inr \<lparr>ld_todos = Some (JNum 5), ld_dailies = Some (JArr []), ld_habits = Some (JArr []),
          ld_theme = Some (JStr ''light''), ld_health = Some (JNum 75), ld_xp = Some (JNum 45),
          ld_level = Some (JNum 3)\<rparr>"
  by (simp add: init_sleepLogs_def init_currentWeek_def loadFromStorage_def JSON_parse_def
      or_else_def opt_prop_def initial_state_def example_stored_def)

text \<open>
  Claim C9, amended. With no stored item, the sleep logs load as the empty list, the
  week marker as \<^verbatim>\<open>null\<close>, and \<open>loadFromStorage\<close> leaves the initial state with its three
  empty lists; the same holds for the stored JSON text of a falsy value. For the JSON
  text of a truthy value no load throws: the sleep logs and the week marker are that
  value, and each of the three task lists is the stored one if truthy and the empty list
  otherwise. A stored text that is not JSON makes every load throw \<^verbatim>\<open>SyntaxError\<close>.
\<close>

theorem loading_missing_defaults:
  "init_sleepLogs NoItem = Inr (Some (JArr [])) \<and>
   init_currentWeek NoItem = Inr (Some JNull) \<and>
   loadFromStorage NoItem initial_state = Inr initial_state \<and>
   ld_todos initial_state = Some (JArr []) \<and>
   ld_dailies initial_state = Some (JArr []) \<and>
   ld_habits initial_state = Some (JArr []) \<and>
   (\<not> truthy (Some v) \<longrightarrow>
      init_sleepLogs (JSONText v) = Inr (Some (JArr [])) \<and>
      init_currentWeek (JSONText v) = Inr (Some JNull) \<and>
      loadFromStorage (JSONText v) state = Inr state) \<and>
   (truthy (Some v) \<longrightarrow>
      init_sleepLogs (JSONText v) = Inr (Some v) \<and>
      init_currentWeek (JSONText v) = Inr (Some v) \<and>
      (\<exists>state'. loadFromStorage (JSONText v) state = Inr state' \<and>
         ld_todos state' = or_else (opt_prop (get_prop v ''tasks'') ''todos'') (Some (JArr [])) \<and>
         ld_dailies state' = or_else (opt_prop (get_prop v ''tasks'') ''dailies'') (Some (JArr [])) \<and>
         ld_habits state' = or_else (opt_prop (get_prop v ''tasks'') ''habits'') (Some (JArr [])))) \<and>
   init_sleepLogs NotJSON = Inl SyntaxError \<and>
   init_currentWeek NotJSON = Inl SyntaxError \<and>
   loadFromStorage NotJSON state = Inl SyntaxError"
proof -
  have 1: "init_sleepLogs NoItem = Inr (Some (JArr []))" "init_currentWeek NoItem = Inr (Some JNull)"
    "loadFromStorage NoItem initial_state = Inr initial_state"
    by (simp_all add: init_sleepLogs_def init_currentWeek_def loadFromStorage_def JSON_parse_def
        or_else_def)
  have 2: "ld_todos initial_state = Some (JArr [])" "ld_dailies initial_state = Some (JArr [])"
    "ld_habits initial_state = Some (JArr [])"
    by (simp_all add: initial_state_def)
  have 3: "init_sleepLogs NotJSON = Inl SyntaxError" "init_currentWeek NotJSON = Inl SyntaxError"
    "loadFromStorage NotJSON state = Inl SyntaxError"
    by (simp_all add: init_sleepLogs_def init_currentWeek_def loadFromStorage_def JSON_parse_def)
  show ?thesis
    using 1 2 3 loadFromStorage_truthy [of v state]
    by (simp add: loads_of_json loadFromStorage_falsy)
qed

theorem loading_missing_defaults_witness:
  "\<not> truthy (Some (JNum 0)) \<and>
   truthy (Some example_stored) \<and>
   init_sleepLogs (JSONText example_stored) = Inr (Some example_stored) \<and>
   init_sleepLogs (JSONText (JNum 0)) = Inr (Some (JArr [])) \<and>
   init_currentWeek (JSONText (JNum 0)) = Inr (Some JNull) \<and>
   loadFromStorage (JSONText (JNum 0)) initial_state = Inr initial_state \<and>
   init_sleepLogs NoItem = Inr (Some (JArr []))"
  using loading_missing_defaults [of "JNum 0" initial_state]
    loading_missing_defaults [of example_stored initial_state]
  by (simp add: example_stored_def)

section \<open>The quest list: bounded counters\<close>

lemma saveToStorage_fields [simp]:
  "health (saveToStorage s) = health s" "xp (saveToStorage s) = xp s"
  "level (saveToStorage s) = level s" "todos (saveToStorage s) = todos s"
  "dailies (saveToStorage s) = dailies s" "habits (saveToStorage s) = habits s"
  by (simp_all add: saveToStorage_def)

lemma counters_bounded_saveToStorage [simp]:
  "counters_bounded (saveToStorage s) = counters_bounded s"
  by (simp add: counters_bounded_def)

lemma level_up_fields [simp]:
  "health (level_up s) = health s"
  "xp (level_up s) = (if xp s \<ge> 100 then 0 else xp s)"
  "level (level_up s) = (if xp s \<ge> 100 then level s + 1 else level s)"
  by (simp_all add: level_up_def)

lemma handleAddTask_bounded:
  "counters_bounded s \<Longrightarrow> counters_bounded (handleAddTask form now s)"
  by (auto simp: handleAddTask_def Let_def counters_bounded_def)

lemma deleteTask_bounded:
  "counters_bounded s \<Longrightarrow> counters_bounded (deleteTask type tid s)"
  by (auto simp: deleteTask_def Let_def counters_bounded_def)

lemma completeTask_bounded:
  "counters_bounded s \<Longrightarrow> counters_bounded (snd (completeTask type tid s))"
  by (auto simp: completeTask_def Let_def counters_bounded_def split: option.splits)

lemma completeTask_xp:
  assumes "counters_bounded s" "fst (completeTask type tid s) = None"
  shows "xp (snd (completeTask type tid s)) < 100"
    and "min 100 (xp s + xp_gain type) = 100 \<Longrightarrow>
           level (snd (completeTask type tid s)) = level s + 1 \<and>
           xp (snd (completeTask type tid s)) = 0"
    and "min 100 (xp s + xp_gain type) \<noteq> 100 \<Longrightarrow>
           level (snd (completeTask type tid s)) = level s \<and>
           xp (snd (completeTask type tid s)) = xp s + xp_gain type"
  using assms
  by (auto simp: completeTask_def Let_def counters_bounded_def xp_gain_def
      split: option.splits if_splits)

lemma completeTask_throws:
  "fst (completeTask type tid s) \<noteq> None \<Longrightarrow> snd (completeTask type tid s) = s"
  by (auto simp: completeTask_def Let_def split: option.splits if_splits)

text \<open>
  Claim C10. If health and xp lie in 0..100, they still do after \<open>handleAddTask\<close>, after
  \<open>completeTask\<close> and after \<open>deleteTask\<close>. When \<open>completeTask\<close> returns, xp is below 100:
  if the gain of the task type (8, 5 or 2), capped at 100, reaches 100, the level has
  gone up by one and xp is 0; otherwise the level is the same and xp has grown by the
  gain. When it throws (a daily or a habit with an unknown id), the state is as
  before.
\<close>

theorem task_operations_keep_counters_bounded:
  assumes "counters_bounded s"
  shows "counters_bounded (handleAddTask form now s) \<and>
         counters_bounded (snd (completeTask type tid s)) \<and>
         counters_bounded (deleteTask type tid s) \<and>
         (fst (completeTask type tid s) = None \<longrightarrow>
            xp (snd (completeTask type tid s)) < 100 \<and>
            (if min 100 (xp s + xp_gain type) = 100
             then level (snd (completeTask type tid s)) = level s + 1 \<and>
                  xp (snd (completeTask type tid s)) = 0
             else level (snd (completeTask type tid s)) = level s \<and>
                  xp (snd (completeTask type tid s)) = xp s + xp_gain type)) \<and>
         (fst (completeTask type tid s) \<noteq> None \<longrightarrow> snd (completeTask type tid s) = s)"
  using assms handleAddTask_bounded [OF assms] completeTask_bounded [OF assms]
    deleteTask_bounded [OF assms] completeTask_xp [OF assms] completeTask_throws
  by simp

theorem task_operations_keep_counters_bounded_witness:
  "counters_bounded example_quests \<and>
   counters_bounded (handleAddTask example_form 1704256200000 example_quests) \<and>
   counters_bounded (snd (completeTask ''todo'' 7 example_quests)) \<and>
   counters_bounded (deleteTask ''todo'' 7 example_quests) \<and>
   fst (completeTask ''todo'' 7 example_quests) = None \<and>
   xp (snd (completeTask ''todo'' 7 example_quests)) = 0 \<and>
   level (snd (completeTask ''todo'' 7 example_quests)) = 3"
proof -
  have h: "counters_bounded example_quests"
    by (simp add: counters_bounded_def example_quests_def)
  have n: "fst (completeTask ''todo'' 7 example_quests) = None"
    by (simp add: completeTask_def Let_def)
  have c: "min 100 (xp example_quests + xp_gain ''todo'') = 100" "level example_quests = 2"
    by (simp_all add: example_quests_def xp_gain_def)
  show ?thesis
    using h n c
      task_operations_keep_counters_bounded
        [OF h, where form = example_form and now = 1704256200000 and type = "''todo''"
          and tid = 7]
    by simp
qed

end
